theory Spec2Isabelle
  imports Main "HOL-Library.AList"
begin

section \<open>Regular expressions as the parser uses them\<close>

text \<open>
  The parser of \<^verbatim>\<open>coral66_semantic_parser.py\<close> is written with Python's \<^verbatim>\<open>re\<close>
  module. The patterns are embedded as terms of a small regular-expression datatype, and
  matching is a backtracking machine with Python's priorities: alternatives are tried left
  to right, repetitions are greedy, and a failed branch gives back what it consumed and
  captured. Texts are HOL strings, a character standing for the Unicode code point of
  its number, 0 to 255; CORAL 66 sources are ASCII texts.
\<close>

datatype citem = Ch char | Lower | Upper | Digit | Space

datatype regex =
    Lit char
  | Cls "citem list"
  | NCls "citem list"
  | WordB
  | Seq regex regex
  | Alt regex regex
  | Star regex
  | Plus regex
  | Opt regex
  | Grp nat regex
  | NotAhead regex

text \<open>
  A character class is a list of items: a single character, \<^verbatim>\<open>a-z\<close>, \<^verbatim>\<open>A-Z\<close>, \<^verbatim>\<open>0-9\<close>
  (also \<^verbatim>\<open>\d\<close>) and \<^verbatim>\<open>\s\<close>. \<open>Cls\<close> is \<^verbatim>\<open>[...]\<close>, \<open>NCls\<close> is \<^verbatim>\<open>[^...]\<close>, \<open>WordB\<close> is
  \<^verbatim>\<open>\b\<close>, \<open>Grp g\<close> is the capturing group number \<open>g\<close> and \<open>NotAhead\<close> is \<^verbatim>\<open>(?!...)\<close>.
  A non-capturing group needs no constructor. The captures of a match are an association
  list from group numbers to the captured text, the latest binding first.
\<close>

type_synonym caps = "(nat \<times> string) list"

text \<open>
  The classes on these code points, as Python's Unicode tables have them. White space
  is what \<^verbatim>\<open>\s\<close> and \<^verbatim>\<open>str.strip\<close> take for it: 9 to 13, 28 to 32, 133 and 160. A word
  character, for \<^verbatim>\<open>\b\<close>, is a letter, a digit or the underscore, the letters and digits
  being those of ASCII and the alphanumeric characters between 170 and 255. \<open>is_upper\<close>
  and \<open>is_lower\<close> are the ranges \<^verbatim>\<open>A-Z\<close> and \<^verbatim>\<open>a-z\<close> of the patterns.
\<close>

definition code :: "char \<Rightarrow> nat" where
  "code c = of_char c"

definition is_upper :: "char \<Rightarrow> bool" where
  "is_upper c = (65 \<le> code c \<and> code c \<le> 90)"

definition is_lower :: "char \<Rightarrow> bool" where
  "is_lower c = (97 \<le> code c \<and> code c \<le> 122)"

definition is_digit :: "char \<Rightarrow> bool" where
  "is_digit c = (48 \<le> code c \<and> code c \<le> 57)"

definition is_space :: "char \<Rightarrow> bool" where
  "is_space c = ((9 \<le> code c \<and> code c \<le> 13) \<or> (28 \<le> code c \<and> code c \<le> 32) \<or>
                 code c = 133 \<or> code c = 160)"

definition is_latin1_word :: "char \<Rightarrow> bool" where
  "is_latin1_word c =
     (code c = 170 \<or> (178 \<le> code c \<and> code c \<le> 179) \<or> code c = 181 \<or>
      (185 \<le> code c \<and> code c \<le> 186) \<or> (188 \<le> code c \<and> code c \<le> 190) \<or>
      (192 \<le> code c \<and> code c \<le> 214) \<or> (216 \<le> code c \<and> code c \<le> 246) \<or> 248 \<le> code c)"

definition is_word :: "char \<Rightarrow> bool" where
  "is_word c = (is_upper c \<or> is_lower c \<or> is_digit c \<or> c = CHR ''_'' \<or> is_latin1_word c)"

text \<open>
  The case mappings of one character: \<^verbatim>\<open>A-Z\<close> and the capital letters 192 to 222 (215
  is not a letter) lie 32 below their small letters. Two small letters have their capital
  beyond 255, the micro sign 181 and the letter 255; \<open>upper_char\<close> leaves them as they
  are, the one place where the model departs from \<^verbatim>\<open>str.upper\<close>.
\<close>

definition is_latin1_upper :: "char \<Rightarrow> bool" where
  "is_latin1_upper c = (192 \<le> code c \<and> code c \<le> 222 \<and> code c \<noteq> 215)"

definition is_latin1_lower :: "char \<Rightarrow> bool" where
  "is_latin1_lower c = (224 \<le> code c \<and> code c \<le> 254 \<and> code c \<noteq> 247)"

definition lower_char :: "char \<Rightarrow> char" where
  "lower_char c = (if is_upper c \<or> is_latin1_upper c then char_of (code c + 32) else c)"

definition upper_char :: "char \<Rightarrow> char" where
  "upper_char c = (if is_lower c \<or> is_latin1_lower c then char_of (code c - 32) else c)"

fun in_item :: "char \<Rightarrow> citem \<Rightarrow> bool" where
  "in_item x (Ch c) = (x = c)"
| "in_item x Lower = is_lower x"
| "in_item x Upper = is_upper x"
| "in_item x Digit = is_digit x"
| "in_item x Space = is_space x"

text \<open>
  Under \<^verbatim>\<open>re.IGNORECASE\<close> (the flag \<open>ic\<close>) a character is in a class when it or one of
  its two cases is, and a literal matches in either case.
\<close>

definition in_class :: "bool \<Rightarrow> citem list \<Rightarrow> char \<Rightarrow> bool" where
  "in_class ic items x =
     (list_ex (in_item x) items \<or>
      (ic \<and> list_ex (\<lambda>i. in_item (lower_char x) i \<or> in_item (upper_char x) i) items))"

definition lit_eq :: "bool \<Rightarrow> char \<Rightarrow> char \<Rightarrow> bool" where
  "lit_eq ic c x = (if ic then lower_char x = lower_char c else x = c)"

fun at_boundary :: "char option \<Rightarrow> string \<Rightarrow> bool" where
  "at_boundary None [] = False"
| "at_boundary None (x # xs) = is_word x"
| "at_boundary (Some p) [] = is_word p"
| "at_boundary (Some p) (x # xs) = (is_word p \<noteq> is_word x)"

text \<open>
  The matcher works on a stack of frames, the rest of the pattern still to be matched
  at the current place: the previous character \<open>p\<close> (for \<^verbatim>\<open>\b\<close>), the rest \<open>s\<close> of the
  text and its offset \<open>n\<close>. \<open>Close g s0 n0\<close> ends group \<open>g\<close>, opened at offset \<open>n0\<close> where
  the text was \<open>s0\<close>; \<open>Loop a n0\<close> stands after one round of \<open>Star a\<close> entered at offset
  \<open>n0\<close> and starts the next round only if the round consumed something. A repetition
  first tries one more round and falls back to none (greedy); an alternative falls back
  to its second branch; the captures of an abandoned branch are dropped with it. The
  weights \<open>rw\<close> and \<open>fw\<close> serve the termination proof only.
\<close>

datatype frame = Re regex | Close nat string nat | Loop regex nat

fun rw :: "regex \<Rightarrow> nat" where
  "rw (Lit c) = 1"
| "rw (Cls items) = 1"
| "rw (NCls items) = 1"
| "rw WordB = 1"
| "rw (Seq a b) = rw a + rw b + 1"
| "rw (Alt a b) = rw a + rw b + 1"
| "rw (Star a) = rw a + 1"
| "rw (Plus a) = 2 * rw a + 2"
| "rw (Opt a) = rw a + 1"
| "rw (Grp g a) = rw a + 2"
| "rw (NotAhead a) = rw a + 1"

fun fw :: "nat \<Rightarrow> frame \<Rightarrow> nat" where
  "fw n (Re r) = rw r"
| "fw n (Close g s0 n0) = 1"
| "fw n (Loop a n0) = (if n0 < n then rw a + 2 else 0)"

function (sequential) run ::
  "bool \<Rightarrow> frame list \<Rightarrow> char option \<Rightarrow> string \<Rightarrow> nat \<Rightarrow> caps
     \<Rightarrow> (char option \<times> string \<times> nat \<times> caps) option" where
  "run ic [] p s n cs = Some (p, s, n, cs)"
| "run ic (Re (Lit c) # st) p [] n cs = None"
| "run ic (Re (Lit c) # st) p (x # xs) n cs =
     (if lit_eq ic c x then run ic st (Some x) xs (Suc n) cs else None)"
| "run ic (Re (Cls items) # st) p [] n cs = None"
| "run ic (Re (Cls items) # st) p (x # xs) n cs =
     (if in_class ic items x then run ic st (Some x) xs (Suc n) cs else None)"
| "run ic (Re (NCls items) # st) p [] n cs = None"
| "run ic (Re (NCls items) # st) p (x # xs) n cs =
     (if in_class ic items x then None else run ic st (Some x) xs (Suc n) cs)"
| "run ic (Re WordB # st) p s n cs =
     (if at_boundary p s then run ic st p s n cs else None)"
| "run ic (Re (Seq a b) # st) p s n cs = run ic (Re a # Re b # st) p s n cs"
| "run ic (Re (Alt a b) # st) p s n cs =
     (case run ic (Re a # st) p s n cs of
        Some r \<Rightarrow> Some r
      | None \<Rightarrow> run ic (Re b # st) p s n cs)"
| "run ic (Re (Star a) # st) p s n cs =
     (case run ic (Re a # Loop a n # st) p s n cs of
        Some r \<Rightarrow> Some r
      | None \<Rightarrow> run ic st p s n cs)"
| "run ic (Re (Plus a) # st) p s n cs = run ic (Re a # Re (Star a) # st) p s n cs"
| "run ic (Re (Opt a) # st) p s n cs =
     (case run ic (Re a # st) p s n cs of
        Some r \<Rightarrow> Some r
      | None \<Rightarrow> run ic st p s n cs)"
| "run ic (Re (Grp g a) # st) p s n cs = run ic (Re a # Close g s n # st) p s n cs"
| "run ic (Re (NotAhead a) # st) p s n cs =
     (case run ic [Re a] p s n cs of
        Some r \<Rightarrow> None
      | None \<Rightarrow> run ic st p s n cs)"
| "run ic (Close g s0 n0 # st) p s n cs = run ic st p s n ((g, take (n - n0) s0) # cs)"
| "run ic (Loop a n0 # st) p s n cs =
     (if n0 < n then run ic (Re (Star a) # st) p s n cs else None)"
  by pat_completeness auto
termination
  by (relation "inv_image (less_than <*lex*> less_than)
        (\<lambda>(ic, st, p, s, n, cs). (length s, sum_list (map (fw n) st)))") auto

text \<open>
  A match object: \<^verbatim>\<open>start()\<close>, \<^verbatim>\<open>end()\<close> and the groups, group 0 being the whole match.
  \<open>scan\<close> is \<^verbatim>\<open>re.finditer\<close>: it tries each offset from left to right and, after a match,
  goes on at the end of the match (\<open>skip\<close> counts the characters still inside it).
\<close>

record rematch =
  m_start :: nat
  m_end :: nat
  m_groups :: caps

definition try_at :: "bool \<Rightarrow> regex \<Rightarrow> char option \<Rightarrow> string \<Rightarrow> nat \<Rightarrow> rematch option" where
  "try_at ic r p s n =
     (case run ic [Re r] p s n [] of
        None \<Rightarrow> None
      | Some (p', s', n', cs') \<Rightarrow>
          Some \<lparr>m_start = n, m_end = n', m_groups = (0, take (n' - n) s) # cs'\<rparr>)"

fun scan :: "bool \<Rightarrow> regex \<Rightarrow> nat \<Rightarrow> char option \<Rightarrow> string \<Rightarrow> nat \<Rightarrow> rematch list" where
  "scan ic r skip p [] n =
     (if skip = 0 then (case try_at ic r p [] n of None \<Rightarrow> [] | Some m \<Rightarrow> [m]) else [])"
| "scan ic r skip p (x # xs) n =
     (if 0 < skip then scan ic r (skip - 1) (Some x) xs (Suc n)
      else (case try_at ic r p (x # xs) n of
              None \<Rightarrow> scan ic r 0 (Some x) xs (Suc n)
            | Some m \<Rightarrow> m # scan ic r (m_end m - Suc n) (Some x) xs (Suc n)))"

definition finditer :: "bool \<Rightarrow> regex \<Rightarrow> string \<Rightarrow> rematch list" where
  "finditer ic r text = scan ic r 0 None text 0"

text \<open>
  A sequence of patterns, and a literal word. \<open>group\<close> is \<^verbatim>\<open>match.group(g)\<close>, None for a
  group that took no part in the match; \<open>group_str\<close> reads a group where the source uses
  it as a string, which it does only for groups that every match binds or behind a test
  that the group is not None.
\<close>

fun seqs :: "regex list \<Rightarrow> regex" where
  "seqs [] = Star (Cls [])"
| "seqs [r] = r"
| "seqs (r # rs) = Seq r (seqs rs)"

definition word :: "string \<Rightarrow> regex" where
  "word s = seqs (map Lit s)"

definition group :: "rematch \<Rightarrow> nat \<Rightarrow> string option" where
  "group m g = map_of (m_groups m) g"

definition group_str :: "rematch \<Rightarrow> nat \<Rightarrow> string" where
  "group_str m g = (case group m g of Some s \<Rightarrow> s | None \<Rightarrow> [])"

section \<open>Python string operations\<close>

text \<open>
  \<^verbatim>\<open>str.upper\<close> (the sharp s, 223, becomes \<^verbatim>\<open>SS\<close>), \<^verbatim>\<open>str.lower\<close>, \<^verbatim>\<open>str.strip\<close>, \<^verbatim>\<open>str.split\<close> on a one-character
  separator, \<^verbatim>\<open>sep.join\<close>, \<^verbatim>\<open>str.rfind\<close> and \<^verbatim>\<open>str.find\<close> (both \<open>-1\<close> when there is
  no occurrence), and \<^verbatim>\<open>str\<close> of an integer as the f-strings use it.
\<close>

definition upper :: "string \<Rightarrow> string" where
  "upper s = concat (map (\<lambda>c. if c = CHR 0xDF then ''SS'' else [upper_char c]) s)"

definition lower :: "string \<Rightarrow> string" where
  "lower s = map lower_char s"

definition strip :: "string \<Rightarrow> string" where
  "strip s = rev (dropWhile is_space (rev (dropWhile is_space s)))"

fun split :: "char \<Rightarrow> string \<Rightarrow> string list" where
  "split c [] = [[]]"
| "split c (x # xs) =
     (if x = c then [] # split c xs
      else (case split c xs of [] \<Rightarrow> [[x]] | w # ws \<Rightarrow> (x # w) # ws))"

fun join :: "string \<Rightarrow> string list \<Rightarrow> string" where
  "join sep [] = []"
| "join sep [w] = w"
| "join sep (w # ws) = w @ sep @ join sep ws"

fun rfind :: "char \<Rightarrow> string \<Rightarrow> int" where
  "rfind c [] = -1"
| "rfind c (x # xs) =
     (let r = rfind c xs in if 0 \<le> r then r + 1 else if x = c then 0 else -1)"

fun find_sub :: "string \<Rightarrow> string \<Rightarrow> int" where
  "find_sub [] sub = (if sub = [] then 0 else -1)"
| "find_sub (x # xs) sub =
     (if take (length sub) (x # xs) = sub then 0
      else (let r = find_sub xs sub in if 0 \<le> r then r + 1 else -1))"

definition digit_char :: "nat \<Rightarrow> char" where
  "digit_char d = char_of (48 + d)"

function str_nat :: "nat \<Rightarrow> string" where
  "str_nat n = (if n < 10 then [digit_char n] else str_nat (n div 10) @ [digit_char (n mod 10)])"
  by pat_completeness auto
termination
  by (relation "measure id") auto

definition str_int :: "int \<Rightarrow> string" where
  "str_int i = (if i < 0 then CHR ''-'' # str_nat (nat (- i)) else str_nat (nat i))"

section \<open>The data model\<close>

datatype SymbolKind =
    VARIABLE | ARRAY | TABLE | PROCEDURE | FUNCTION | SWITCH | LABEL | PARAMETER | ELEMENT | OVERLAY

record Symbol =
  sym_name :: string
  sym_kind :: SymbolKind
  sym_data_type :: string
  sym_line :: int
  sym_column :: int
  sym_end_line :: int
  sym_end_column :: int
  sym_scope :: string
  sym_documentation :: string
  sym_parameters :: "string list"
  sym_dimensions :: "string list"
  sym_elements :: "string list"

record Reference =
  ref_name :: string
  ref_line :: int
  ref_column :: int
  ref_end_column :: int
  ref_context :: string

record Diagnostic =
  diag_line :: int
  diag_column :: int
  diag_end_column :: int
  diag_message :: string
  diag_severity :: string

text \<open>
  The constructor call \<^verbatim>\<open>Symbol(name=..., kind=..., data_type=..., line=..., column=...)\<close>
  with the dataclass defaults for the fields it leaves out.
\<close>

definition mk_symbol :: "string \<Rightarrow> SymbolKind \<Rightarrow> string \<Rightarrow> int \<Rightarrow> int \<Rightarrow> Symbol" where
  "mk_symbol nm k ty ln col =
     \<lparr>sym_name = nm, sym_kind = k, sym_data_type = ty, sym_line = ln, sym_column = col,
      sym_end_line = 0, sym_end_column = 0, sym_scope = ''global'', sym_documentation = [],
      sym_parameters = [], sym_dimensions = [], sym_elements = []\<rparr>"

text \<open>
  The instance state of \<^verbatim>\<open>CORAL66Parser\<close>. The dictionary \<^verbatim>\<open>symbols\<close> is an
  association list in insertion order: assigning to a key that is present replaces the
  value in place, assigning to a new key appends.
\<close>

record CORAL66Parser =
  symbols :: "(string \<times> Symbol) list"
  references :: "Reference list"
  diagnostics :: "Diagnostic list"
  lines :: "string list"
  current_scope :: string
  scope_stack :: "string list"

definition init :: CORAL66Parser where
  "init = \<lparr>symbols = [], references = [], diagnostics = [], lines = [],
           current_scope = ''global'', scope_stack = [''global'']\<rparr>"

definition store :: "string \<Rightarrow> Symbol \<Rightarrow> CORAL66Parser \<Rightarrow> CORAL66Parser" where
  "store key v self = self\<lparr>symbols := AList.update key v (symbols self)\<rparr>"

definition KEYWORDS :: "string list" where
  "KEYWORDS =
     [''BEGIN'', ''END'',
      ''IF'', ''THEN'', ''ELSE'', ''FOR'', ''DO'', ''WHILE'', ''STEP'', ''UNTIL'', ''GOTO'',
      ''PROCEDURE'', ''RECURSIVE'', ''ANSWER'',
      ''FLOATING'', ''FIXED'', ''INTEGER'', ''UNSIGNED'',
      ''ARRAY'', ''TABLE'', ''SWITCH'', ''OVERLAY'', ''WITH'', ''PRESET'',
      ''VALUE'', ''LOCATION'',
      ''COMMON'', ''LIBRARY'', ''EXTERNAL'', ''ABSOLUTE'',
      ''BITS'', ''LABEL'',
      ''AND'', ''OR'', ''DIFFER'', ''UNION'', ''MASK'',
      ''OCTAL'', ''LITERAL'',
      ''COMMENT'',
      ''DEFINE'', ''DELETE'',
      ''CODE'']"

definition is_keyword :: "string \<Rightarrow> bool" where
  "is_keyword w = (w \<in> set KEYWORDS)"

section \<open>The patterns of the parser\<close>

definition ws :: regex where
  "ws = Star (Cls [Space])"

definition ws1 :: regex where
  "ws1 = Plus (Cls [Space])"

definition digits :: regex where
  "digits = Plus (Cls [Digit])"

definition signed_digits :: regex where
  "signed_digits = Seq (Opt (Lit CHR ''-'')) digits"

text \<open>\<^verbatim>\<open>[a-zA-Z][a-zA-Z0-9]*\<close>\<close>

definition ident :: regex where
  "ident = Seq (Cls [Lower, Upper]) (Star (Cls [Lower, Upper, Digit]))"

text \<open>\<^verbatim>\<open>[a-zA-Z][a-zA-Z0-9]*(?:\s*,\s*[a-zA-Z][a-zA-Z0-9]*)*\<close>\<close>

definition id_list :: regex where
  "id_list = Seq ident (Star (seqs [ws, Lit CHR '','', ws, ident]))"

text \<open>\<^verbatim>\<open>(?:\s*:=\s*([^;]+))?\<close>, the capture being group \<open>g\<close>\<close>

definition preset :: "nat \<Rightarrow> regex" where
  "preset g = Opt (seqs [ws, Lit CHR '':'', Lit CHR ''='', ws, Grp g (Plus (NCls [Ch CHR '';'']))])"

text \<open>\<^verbatim>\<open>\(\s*(\d+)\s*,\s*(-?\d+)\s*\)\<close>, the captures being groups 2 and 3\<close>

definition fixed_args :: regex where
  "fixed_args = seqs [Lit CHR ''('', ws, Grp 2 digits, ws, Lit CHR '','', ws, Grp 3 signed_digits,
                      ws, Lit CHR '')'']"

text \<open>\<^verbatim>\<open>NAME\s*\([^)]+\)\<close>\<close>

definition with_parens :: "string \<Rightarrow> regex" where
  "with_parens nm = seqs [word nm, ws, Lit CHR ''('', Plus (NCls [Ch CHR '')'']), Lit CHR '')'']"

text \<open>\<^verbatim>\<open>\bCOMMENT\b[^;]*;\<close>\<close>

definition comment_pattern :: regex where
  "comment_pattern = seqs [WordB, word ''COMMENT'', WordB, Star (NCls [Ch CHR '';'']), Lit CHR '';'']"

text \<open>\<^verbatim>\<open>\b(INTEGER)\s+(id-list)(?:\s*:=\s*([^;]+))?\<close> and the same with FLOATING\<close>

definition number_pattern :: "string \<Rightarrow> regex" where
  "number_pattern ty = seqs [WordB, Grp 1 (word ty), ws1, Grp 2 id_list, preset 3]"

text \<open>\<^verbatim>\<open>\b(FIXED)\s*\(\s*(\d+)\s*,\s*(-?\d+)\s*\)\s+(id-list)(?:\s*:=\s*([^;]+))?\<close>\<close>

definition fixed_pattern :: regex where
  "fixed_pattern = seqs [WordB, Grp 1 (word ''FIXED''), ws, fixed_args, ws1, Grp 4 id_list, preset 5]"

text \<open>\<^verbatim>\<open>\b(INTEGER|FLOATING)\s+ARRAY\s+(id)\s*\[([^\]]+)\]\<close>\<close>

definition array_pattern :: regex where
  "array_pattern =
     seqs [WordB, Grp 1 (Alt (word ''INTEGER'') (word ''FLOATING'')), ws1, word ''ARRAY'', ws1,
           Grp 2 ident, ws, Lit CHR ''['', Grp 3 (Plus (NCls [Ch CHR '']''])), Lit CHR '']'']"

text \<open>\<^verbatim>\<open>\b(FIXED)\s*\(\s*(\d+)\s*,\s*(-?\d+)\s*\)\s+ARRAY\s+(id)\s*\[([^\]]+)\]\<close>\<close>

definition fixed_array_pattern :: regex where
  "fixed_array_pattern =
     seqs [WordB, Grp 1 (word ''FIXED''), ws, fixed_args, ws1, word ''ARRAY'', ws1,
           Grp 4 ident, ws, Lit CHR ''['', Grp 5 (Plus (NCls [Ch CHR '']''])), Lit CHR '']'']"

text \<open>\<^verbatim>\<open>\bTABLE\s+(id)\s*\[\s*(\d+)\s*,\s*(\d+)\s*\]\s*\[([^\]]*)\]\<close>\<close>

definition table_pattern :: regex where
  "table_pattern =
     seqs [WordB, word ''TABLE'', ws1, Grp 1 ident, ws, Lit CHR ''['', ws, Grp 2 digits, ws,
           Lit CHR '','', ws, Grp 3 digits, ws, Lit CHR '']'', ws, Lit CHR ''['',
           Grp 4 (Star (NCls [Ch CHR '']''])), Lit CHR '']'']"

text \<open>\<^verbatim>\<open>(id)\s+(INTEGER|FLOATING|FIXED\s*\([^)]+\)|UNSIGNED\s*\([^)]+\))\s+(-?\d+)(?:\s*,\s*(\d+))?\<close>\<close>

definition element_pattern :: regex where
  "element_pattern =
     seqs [Grp 1 ident, ws1,
           Grp 2 (Alt (word ''INTEGER'') (Alt (word ''FLOATING'')
                   (Alt (with_parens ''FIXED'') (with_parens ''UNSIGNED'')))),
           ws1, Grp 3 signed_digits, Opt (seqs [ws, Lit CHR '','', ws, Grp 4 digits])]"

text \<open>\<^verbatim>\<open>\b(INTEGER|FLOATING|FIXED\s*\([^)]+\))?\s*(RECURSIVE\s+)?PROCEDURE\s+(id)\s*(?:\(([^)]*)\))?\s*;\<close>\<close>

definition procedure_pattern :: regex where
  "procedure_pattern =
     seqs [WordB,
           Opt (Grp 1 (Alt (word ''INTEGER'') (Alt (word ''FLOATING'') (with_parens ''FIXED'')))),
           ws, Opt (Grp 2 (Seq (word ''RECURSIVE'') ws1)), word ''PROCEDURE'', ws1, Grp 3 ident, ws,
           Opt (seqs [Lit CHR ''('', Grp 4 (Star (NCls [Ch CHR '')''])), Lit CHR '')'']),
           ws, Lit CHR '';'']"

text \<open>\<^verbatim>\<open>:\s*(id-list)\<close>\<close>

definition param_pattern :: regex where
  "param_pattern = seqs [Lit CHR '':'', ws, Grp 1 id_list]"

text \<open>\<^verbatim>\<open>\bSWITCH\s+(id)\s*:=\s*(id-list)\<close>\<close>

definition switch_pattern :: regex where
  "switch_pattern =
     seqs [WordB, word ''SWITCH'', ws1, Grp 1 ident, ws, Lit CHR '':'', Lit CHR ''='', ws, Grp 2 id_list]"

text \<open>\<^verbatim>\<open>\bOVERLAY\s+(id(?:\s*\[[^\]]*\])?)\s+WITH\s+\<close>\<close>

definition overlay_pattern :: regex where
  "overlay_pattern =
     seqs [WordB, word ''OVERLAY'', ws1,
           Grp 1 (Seq ident (Opt (seqs [ws, Lit CHR ''['', Star (NCls [Ch CHR '']'']), Lit CHR '']'']))),
           ws1, word ''WITH'', ws1]"

text \<open>\<^verbatim>\<open>\b(id)\s*:(?!=)\<close>\<close>

definition label_pattern :: regex where
  "label_pattern = seqs [WordB, Grp 1 ident, ws, Lit CHR '':'', NotAhead (Lit CHR ''='')]"

text \<open>\<^verbatim>\<open>\b(id)\b\<close>\<close>

definition word_pattern :: regex where
  "word_pattern = seqs [WordB, Grp 1 ident, WordB]"

section \<open>The parser\<close>

text \<open>
  \<^verbatim>\<open>re.sub(pattern, '', text)\<close> keeps the pieces of the text between the matches and
  puts the empty string for each match. \<open>find_position\<close> turns an offset into a line and
  a column by counting the newlines before it. Each declaration pass is a loop over the
  matches of its pattern, a \<open>fold\<close> of the loop body over \<open>finditer\<close>; the body is the
  function named \<open>..._step\<close>.
\<close>

definition newline :: char where
  "newline = CHR 0x0A"

definition remove_matches :: "rematch list \<Rightarrow> string \<Rightarrow> string" where
  "remove_matches ms text =
     (case foldl (\<lambda>(out, pos) m. (out @ take (m_start m - pos) (drop pos text), m_end m)) ([], 0) ms of
        (out, pos) \<Rightarrow> out @ drop pos text)"

definition remove_comments :: "string \<Rightarrow> string" where
  "remove_comments text = remove_matches (finditer True comment_pattern text) text"

definition find_position :: "string \<Rightarrow> nat \<Rightarrow> int \<times> int" where
  "find_position text match_start =
     (let line = int (length (filter (\<lambda>c. c = newline) (take match_start text)));
          last_newline = rfind newline (take match_start text);
          column = (if 0 \<le> last_newline then int match_start - last_newline - 1 else int match_start)
      in (line, column))"

definition declare_number ::
  "string \<Rightarrow> string \<Rightarrow> string \<Rightarrow> nat \<Rightarrow> string \<Rightarrow> CORAL66Parser \<Rightarrow> CORAL66Parser" where
  "declare_number text type_name doc start id_name self =
     (if id_name \<noteq> [] \<and> \<not> is_keyword (upper id_name) then
        (case find_position text start of
           (line, col) \<Rightarrow>
             store (lower id_name)
               ((mk_symbol (lower id_name) VARIABLE type_name line col)\<lparr>sym_documentation := doc\<rparr>) self)
      else self)"

definition number_step :: "string \<Rightarrow> rematch \<Rightarrow> CORAL66Parser \<Rightarrow> CORAL66Parser" where
  "number_step text m self =
     (let type_name = upper (group_str m 1);
          ids = map strip (split CHR '','' (group_str m 2))
      in fold (declare_number text type_name (type_name @ '' variable'') (m_start m)) ids self)"

definition fixed_step :: "string \<Rightarrow> rematch \<Rightarrow> CORAL66Parser \<Rightarrow> CORAL66Parser" where
  "fixed_step text m self =
     (let totalbits = group_str m 2;
          fractionbits = group_str m 3;
          type_name = ''FIXED('' @ totalbits @ '','' @ fractionbits @ '')'';
          ids = map strip (split CHR '','' (group_str m 4))
      in fold (declare_number text type_name
                 (''Fixed-point variable: '' @ totalbits @ '' total bits, '' @ fractionbits @ '' fraction bits'')
                 (m_start m)) ids self)"

definition parse_number_declarations :: "CORAL66Parser \<Rightarrow> string \<Rightarrow> CORAL66Parser" where
  "parse_number_declarations self text =
     fold (fixed_step text) (finditer True fixed_pattern text)
       (fold (number_step text) (finditer True (number_pattern ''FLOATING'') text)
          (fold (number_step text) (finditer True (number_pattern ''INTEGER'') text) self))"

definition array_step :: "string \<Rightarrow> rematch \<Rightarrow> CORAL66Parser \<Rightarrow> CORAL66Parser" where
  "array_step text m self =
     (let type_name = upper (group_str m 1);
          array_name = group_str m 2;
          dims = group_str m 3
      in case find_position text (m_start m) of
           (line, col) \<Rightarrow>
             store (lower array_name)
               ((mk_symbol (lower array_name) ARRAY (type_name @ '' ARRAY'') line col)
                  \<lparr>sym_dimensions := map strip (split CHR '','' dims),
                   sym_documentation := type_name @ '' array with dimensions ['' @ dims @ '']''\<rparr>) self)"

definition fixed_array_step :: "string \<Rightarrow> rematch \<Rightarrow> CORAL66Parser \<Rightarrow> CORAL66Parser" where
  "fixed_array_step text m self =
     (let totalbits = group_str m 2;
          fractionbits = group_str m 3;
          array_name = group_str m 4;
          dims = group_str m 5;
          type_name = ''FIXED('' @ totalbits @ '','' @ fractionbits @ '')''
      in case find_position text (m_start m) of
           (line, col) \<Rightarrow>
             store (lower array_name)
               ((mk_symbol (lower array_name) ARRAY (type_name @ '' ARRAY'') line col)
                  \<lparr>sym_dimensions := map strip (split CHR '','' dims),
                   sym_documentation := ''Fixed-point array ['' @ dims @ '']: '' @ totalbits @ '' bits, ''
                                          @ fractionbits @ '' fraction bits''\<rparr>) self)"

definition parse_array_declarations :: "CORAL66Parser \<Rightarrow> string \<Rightarrow> CORAL66Parser" where
  "parse_array_declarations self text =
     fold (fixed_array_step text) (finditer True fixed_array_pattern text)
       (fold (array_step text) (finditer True array_pattern text) self)"

definition element_step ::
  "string \<Rightarrow> rematch \<Rightarrow> string \<Rightarrow> string \<Rightarrow> rematch \<Rightarrow> CORAL66Parser \<Rightarrow> CORAL66Parser" where
  "element_step text m table_name elements_text em self =
     (let elem_name = group_str em 1;
          elem_type = group_str em 2
      in case find_position text (nat (int (m_start m) + find_sub elements_text (group_str em 0))) of
           (elem_line, elem_col) \<Rightarrow>
             store (lower table_name @ ''.'' @ lower elem_name)
               ((mk_symbol (lower elem_name) ELEMENT (upper elem_type) elem_line elem_col)
                  \<lparr>sym_scope := lower table_name,
                   sym_documentation := ''Element of TABLE '' @ table_name\<rparr>) self)"

definition table_step :: "string \<Rightarrow> rematch \<Rightarrow> CORAL66Parser \<Rightarrow> CORAL66Parser" where
  "table_step text m self =
     (let table_name = group_str m 1;
          width = group_str m 2;
          len = group_str m 3;
          elements_text = group_str m 4;
          ems = finditer True element_pattern elements_text;
          elements = map (\<lambda>em. lower (group_str em 1)) ems
      in case find_position text (m_start m) of
           (line, col) \<Rightarrow>
             store (lower table_name)
               ((mk_symbol (lower table_name) TABLE (''TABLE['' @ width @ '','' @ len @ '']'') line col)
                  \<lparr>sym_elements := elements,
                   sym_documentation := ''Table with width '' @ width @ '', length '' @ len\<rparr>)
               (fold (element_step text m table_name elements_text) ems self))"

definition parse_table_declarations :: "CORAL66Parser \<Rightarrow> string \<Rightarrow> CORAL66Parser" where
  "parse_table_declarations self text = fold (table_step text) (finditer True table_pattern text) self"

definition truthy :: "string option \<Rightarrow> bool" where
  "truthy x = (case x of None \<Rightarrow> False | Some s \<Rightarrow> s \<noteq> [])"

definition re_search :: "bool \<Rightarrow> regex \<Rightarrow> string \<Rightarrow> rematch option" where
  "re_search ic r text = (case finditer ic r text of [] \<Rightarrow> None | m # ms \<Rightarrow> Some m)"

definition declare_param ::
  "string \<Rightarrow> int \<Rightarrow> int \<Rightarrow> string \<Rightarrow> CORAL66Parser \<Rightarrow> CORAL66Parser" where
  "declare_param proc_name line col param_name self =
     store (lower proc_name @ ''.'' @ lower param_name)
       ((mk_symbol (lower param_name) PARAMETER ''parameter'' line col)
          \<lparr>sym_scope := lower proc_name,
           sym_documentation := ''Parameter of '' @ proc_name\<rparr>) self"

definition param_part ::
  "string \<Rightarrow> int \<Rightarrow> int \<Rightarrow> string \<Rightarrow> string list \<times> CORAL66Parser \<Rightarrow> string list \<times> CORAL66Parser" where
  "param_part proc_name line col part0 acc =
     (case acc of
        (params, self) \<Rightarrow>
          (let part = strip part0 in
             if part \<noteq> [] then
               (case re_search False param_pattern part of
                  Some id_match \<Rightarrow>
                    (let ids = map strip (split CHR '','' (group_str id_match 1))
                     in (params @ ids, fold (declare_param proc_name line col) ids self))
                | None \<Rightarrow> (params, self))
             else (params, self)))"

definition procedure_step :: "string \<Rightarrow> rematch \<Rightarrow> CORAL66Parser \<Rightarrow> CORAL66Parser" where
  "procedure_step text m self =
     (let return_type = group m 1;
          is_recursive = (group m 2 \<noteq> None);
          proc_name = group_str m 3;
          params_text = group m 4;
          kind = (if truthy return_type then FUNCTION else PROCEDURE);
          type_str0 = (if truthy return_type then upper (group_str m 1) @ '' PROCEDURE'' else ''PROCEDURE'');
          type_str = (if is_recursive then ''RECURSIVE '' @ type_str0 else type_str0)
      in case find_position text (m_start m) of
           (line, col) \<Rightarrow>
             (case (if truthy params_text
                    then fold (param_part proc_name line col) (split CHR '';'' (group_str m 4)) ([], self)
                    else ([], self)) of
                (params, self') \<Rightarrow>
                  store (lower proc_name)
                    ((mk_symbol (lower proc_name) kind type_str line col)
                       \<lparr>sym_parameters := params,
                        sym_documentation := type_str @ '' - '' @
                          (if truthy return_type then ''returns '' @ upper (group_str m 1)
                           else ''no return value'')\<rparr>) self'))"

definition parse_procedure_declarations :: "CORAL66Parser \<Rightarrow> string \<Rightarrow> CORAL66Parser" where
  "parse_procedure_declarations self text =
     fold (procedure_step text) (finditer True procedure_pattern text) self"

definition switch_step :: "string \<Rightarrow> rematch \<Rightarrow> CORAL66Parser \<Rightarrow> CORAL66Parser" where
  "switch_step text m self =
     (let switch_name = group_str m 1;
          labels = map strip (split CHR '','' (group_str m 2))
      in case find_position text (m_start m) of
           (line, col) \<Rightarrow>
             store (lower switch_name)
               ((mk_symbol (lower switch_name) SWITCH ''SWITCH'' line col)
                  \<lparr>sym_elements := labels,
                   sym_documentation := ''Switch with labels: '' @ join '', '' labels\<rparr>) self)"

definition parse_switch_declarations :: "CORAL66Parser \<Rightarrow> string \<Rightarrow> CORAL66Parser" where
  "parse_switch_declarations self text = fold (switch_step text) (finditer True switch_pattern text) self"

definition overlay_step :: "string \<Rightarrow> rematch \<Rightarrow> CORAL66Parser \<Rightarrow> CORAL66Parser" where
  "overlay_step text m self =
     (let base = group_str m 1
      in case find_position text (m_start m) of
           (line, col) \<Rightarrow>
             store (''overlay_'' @ str_int line @ ''_'' @ str_int col)
               ((mk_symbol (lower base) OVERLAY ''OVERLAY'' line col)
                  \<lparr>sym_documentation := ''Overlay on '' @ base\<rparr>) self)"

definition parse_overlay_declarations :: "CORAL66Parser \<Rightarrow> string \<Rightarrow> CORAL66Parser" where
  "parse_overlay_declarations self text = fold (overlay_step text) (finditer True overlay_pattern text) self"

definition label_step :: "string \<Rightarrow> rematch \<Rightarrow> CORAL66Parser \<Rightarrow> CORAL66Parser" where
  "label_step text m self =
     (let label_name = group_str m 1 in
        if is_keyword (upper label_name) then self
        else (case find_position text (m_start m) of
                (line, col) \<Rightarrow>
                  if map_of (symbols self) (lower label_name) = None then
                    store (lower label_name)
                      ((mk_symbol (lower label_name) LABEL ''LABEL'' line col)
                         \<lparr>sym_documentation := ''Label''\<rparr>) self
                  else self))"

definition parse_labels :: "CORAL66Parser \<Rightarrow> string \<Rightarrow> CORAL66Parser" where
  "parse_labels self text = fold (label_step text) (finditer False label_pattern text) self"

definition reference_step :: "string \<Rightarrow> rematch \<Rightarrow> CORAL66Parser \<Rightarrow> CORAL66Parser" where
  "reference_step text m self =
     (let name = group_str m 1 in
        if is_keyword (upper name) then self
        else (case find_position text (m_start m) of
                (line, col) \<Rightarrow>
                  self\<lparr>references := references self @
                    [\<lparr>ref_name = lower name, ref_line = line, ref_column = col,
                      ref_end_column = col + int (length name), ref_context = []\<rparr>]\<rparr>))"

definition parse_references :: "CORAL66Parser \<Rightarrow> string \<Rightarrow> CORAL66Parser" where
  "parse_references self text = fold (reference_step text) (finditer False word_pattern text) self"

definition parse :: "CORAL66Parser \<Rightarrow> string \<Rightarrow> CORAL66Parser" where
  "parse self text =
     (let self0 = self\<lparr>symbols := [], references := [], diagnostics := [],
                       lines := split newline text, current_scope := ''global'',
                       scope_stack := [''global'']\<rparr>;
          cleaned_text = remove_comments text;
          self1 = parse_number_declarations self0 cleaned_text;
          self2 = parse_array_declarations self1 cleaned_text;
          self3 = parse_table_declarations self2 cleaned_text;
          self4 = parse_procedure_declarations self3 cleaned_text;
          self5 = parse_switch_declarations self4 cleaned_text;
          self6 = parse_overlay_declarations self5 cleaned_text;
          self7 = parse_labels self6 cleaned_text
      in parse_references self7 cleaned_text)"

definition get_symbols :: "CORAL66Parser \<Rightarrow> (string \<times> Symbol) list" where
  "get_symbols self = symbols self"

definition get_references :: "CORAL66Parser \<Rightarrow> Reference list" where
  "get_references self = references self"

definition get_diagnostics :: "CORAL66Parser \<Rightarrow> Diagnostic list" where
  "get_diagnostics self = diagnostics self"

section \<open>The queries\<close>

datatype py_error = IndexError

text \<open>
  \<^verbatim>\<open>self.lines[line]\<close> after the guard \<^verbatim>\<open>line >= len(self.lines)\<close>: a negative index
  counts from the end of the list and raises below \<open>- len\<close>.
\<close>

definition line_at :: "string list \<Rightarrow> int \<Rightarrow> py_error + string" where
  "line_at ls line =
     (let n = int (length ls); j = (if line < 0 then n + line else line)
      in if 0 \<le> j \<and> j < n then Inr (ls ! nat j) else Inl IndexError)"

text \<open>
  The loop shared by the three queries: the first identifier of the line whose span
  \<^verbatim>\<open>match.start() <= column <= match.end()\<close> holds the column.
\<close>

definition word_at :: "string \<Rightarrow> int \<Rightarrow> rematch option" where
  "word_at line_text column =
     find (\<lambda>m. int (m_start m) \<le> column \<and> column \<le> int (m_end m)) (finditer False word_pattern line_text)"

definition get_hover :: "CORAL66Parser \<Rightarrow> int \<Rightarrow> int \<Rightarrow> py_error + string option" where
  "get_hover self line column =
     (if int (length (lines self)) \<le> line then Inr None
      else (case line_at (lines self) line of
              Inl e \<Rightarrow> Inl e
            | Inr line_text \<Rightarrow>
                (case word_at line_text column of
                   None \<Rightarrow> Inr None
                 | Some word_match \<Rightarrow>
                     (let word = group_str word_match 1 in
                        if is_keyword (upper word) then
                          Inr (Some (''**'' @ upper word @ ''**'' @ [newline, newline] @ ''CORAL 66 keyword''))
                        else (case map_of (symbols self) (lower word) of
                                Some s \<Rightarrow>
                                  Inr (Some (''**'' @ sym_name s @ ''**: '' @ sym_data_type s
                                             @ [newline, newline] @ sym_documentation s))
                              | None \<Rightarrow> Inr None)))))"

definition get_definition :: "CORAL66Parser \<Rightarrow> int \<Rightarrow> int \<Rightarrow> py_error + (int \<times> int \<times> string) option" where
  "get_definition self line column =
     (if int (length (lines self)) \<le> line then Inr None
      else (case line_at (lines self) line of
              Inl e \<Rightarrow> Inl e
            | Inr line_text \<Rightarrow>
                (case word_at line_text column of
                   None \<Rightarrow> Inr None
                 | Some m \<Rightarrow>
                     (case map_of (symbols self) (lower (group_str m 1)) of
                        Some s \<Rightarrow> Inr (Some (sym_line s, sym_column s, sym_name s))
                      | None \<Rightarrow> Inr None))))"

definition get_references_at :: "CORAL66Parser \<Rightarrow> int \<Rightarrow> int \<Rightarrow> py_error + (int \<times> int \<times> int) list" where
  "get_references_at self line column =
     (if int (length (lines self)) \<le> line then Inr []
      else (case line_at (lines self) line of
              Inl e \<Rightarrow> Inl e
            | Inr line_text \<Rightarrow>
                (case word_at line_text column of
                   None \<Rightarrow> Inr []
                 | Some m \<Rightarrow>
                     (let target_word = lower (group_str m 1) in
                        if target_word = [] then Inr []
                        else Inr (map (\<lambda>r. (ref_line r, ref_column r, ref_end_column r))
                                    (filter (\<lambda>r. ref_name r = target_word) (references self)))))))"

section \<open>Vocabulary of the statements\<close>

text \<open>
  For the statements and proofs about comments: the substitution of \<open>remove_matches\<close>
  written as a recursion over the matches; matches that follow one another without
  overlap between two bounds; and the offsets of a text that lie inside some match.
\<close>

fun splice :: "nat \<Rightarrow> rematch list \<Rightarrow> string \<Rightarrow> string" where
  "splice pos [] text = drop pos text"
| "splice pos (m # ms) text = take (m_start m - pos) (drop pos text) @ splice (m_end m) ms text"

fun ordered :: "nat \<Rightarrow> nat \<Rightarrow> rematch list \<Rightarrow> bool" where
  "ordered k l [] = (k \<le> l)"
| "ordered k l (m # ms) = (k \<le> m_start m \<and> m_start m \<le> m_end m \<and> ordered (m_end m) l ms)"

definition covered :: "rematch list \<Rightarrow> nat \<Rightarrow> bool" where
  "covered ms i = list_ex (\<lambda>m. m_start m \<le> i \<and> i < m_end m) ms"

text \<open>
  The names a match of a number pattern declares (the identifiers of its list that are not
  keywords, lower-cased), and the Symbol that \<open>number_step\<close> stores for such a name.
\<close>

definition declared_ids :: "rematch \<Rightarrow> string list" where
  "declared_ids m =
     map lower (filter (\<lambda>i. i \<noteq> [] \<and> \<not> is_keyword (upper i)) (map strip (split CHR '','' (group_str m 2))))"

definition number_symbol :: "string \<Rightarrow> rematch \<Rightarrow> string \<Rightarrow> Symbol" where
  "number_symbol text m k =
     (mk_symbol k VARIABLE (upper (group_str m 1))
        (fst (find_position text (m_start m))) (snd (find_position text (m_start m))))
     \<lparr>sym_documentation := upper (group_str m 1) @ '' variable''\<rparr>"

text \<open>
  The symbol table as a map, and the table that a loop over matches builds when it starts
  from a fresh parser. For maps, \<open>m1 ++ m2\<close> is \<open>m1\<close> overwritten by \<open>m2\<close>: a key of
  \<open>m2\<close> has the value \<open>m2\<close> gives it, any other key the value \<open>m1\<close> gives it.
\<close>

definition table_of :: "CORAL66Parser \<Rightarrow> string \<rightharpoonup> Symbol" where
  "table_of self = map_of (symbols self)"

definition loop :: "(rematch \<Rightarrow> CORAL66Parser \<Rightarrow> CORAL66Parser) \<Rightarrow> rematch list \<Rightarrow> string \<rightharpoonup> Symbol" where
  "loop step ms = table_of (fold step ms init)"

text \<open>
  The loops of the declaration passes in the order in which \<open>parse\<close> runs them, each with
  the matches it walks through in the text \<open>c\<close>.
\<close>

definition declaration_loops ::
  "string \<Rightarrow> ((rematch \<Rightarrow> CORAL66Parser \<Rightarrow> CORAL66Parser) \<times> rematch list) list" where
  "declaration_loops c =
     [(number_step c, finditer True (number_pattern ''INTEGER'') c),
      (number_step c, finditer True (number_pattern ''FLOATING'') c),
      (fixed_step c, finditer True fixed_pattern c),
      (array_step c, finditer True array_pattern c),
      (fixed_array_step c, finditer True fixed_array_pattern c),
      (table_step c, finditer True table_pattern c),
      (procedure_step c, finditer True procedure_pattern c),
      (switch_step c, finditer True switch_pattern c),
      (overlay_step c, finditer True overlay_pattern c)]"

text \<open>
  The names a match of the FIXED pattern declares and the Symbol \<open>fixed_step\<close> stores for
  such a name; the Reference that the reference pass records for a match of the word
  pattern, and the matches it records one for; a table without two entries under one key.
\<close>

definition fixed_declared_ids :: "rematch \<Rightarrow> string list" where
  "fixed_declared_ids m =
     map lower (filter (\<lambda>i. i \<noteq> [] \<and> \<not> is_keyword (upper i)) (map strip (split CHR '','' (group_str m 4))))"

definition fixed_symbol :: "string \<Rightarrow> rematch \<Rightarrow> string \<Rightarrow> Symbol" where
  "fixed_symbol text m k =
     (mk_symbol k VARIABLE (''FIXED('' @ group_str m 2 @ '','' @ group_str m 3 @ '')'')
        (fst (find_position text (m_start m))) (snd (find_position text (m_start m))))
     \<lparr>sym_documentation := ''Fixed-point variable: '' @ group_str m 2 @ '' total bits, ''
                              @ group_str m 3 @ '' fraction bits''\<rparr>"




section \<open>Sample documents\<close>

text \<open>
  Texts on which the parser is run below. In \<open>shadow_doc\<close> line 0 declares \<open>x\<close> globally,
  lines 1 to 5 hold a procedure \<open>p\<close> whose body declares its own \<open>x\<close> on line 3 and uses
  it on line 4, and line 6 uses \<open>x\<close> outside the procedure.
\<close>

definition label_doc :: string where
  "label_doc = ''INTEGER x;\<newline>x: x := 1''"


definition comment_doc :: string where
  "comment_doc = ''COMMENT a; INTEGER x;''"

definition duplicate_doc :: string where
  "duplicate_doc = ''INTEGER x;\<newline>INTEGER x;''"


section \<open>Evaluation of the character classes\<close>

text \<open>
  The classes and the case mappings on the eight bits of a character, as code equations:
  the evaluations below decide a class by the bits instead of by arithmetic on the code.
\<close>

lemma is_upper_bits [code]:
  "is_upper (Char b0 b1 b2 b3 b4 b5 b6 b7) =
     (\<not> b7 \<and> b6 \<and> \<not> b5 \<and> (b0 \<or> b1 \<or> b2 \<or> b3 \<or> b4) \<and> \<not> (b4 \<and> b3 \<and> (b2 \<or> (b1 \<and> b0))))"
  by (cases b0; cases b1; cases b2; cases b3; cases b4; cases b5; cases b6; cases b7;
      simp add: is_upper_def code_def)

lemma is_lower_bits [code]:
  "is_lower (Char b0 b1 b2 b3 b4 b5 b6 b7) =
     (\<not> b7 \<and> b6 \<and> b5 \<and> (b0 \<or> b1 \<or> b2 \<or> b3 \<or> b4) \<and> \<not> (b4 \<and> b3 \<and> (b2 \<or> (b1 \<and> b0))))"
  by (cases b0; cases b1; cases b2; cases b3; cases b4; cases b5; cases b6; cases b7;
      simp add: is_lower_def code_def)

lemma is_digit_bits [code]:
  "is_digit (Char b0 b1 b2 b3 b4 b5 b6 b7) =
     (\<not> b7 \<and> \<not> b6 \<and> b5 \<and> b4 \<and> \<not> (b3 \<and> (b2 \<or> b1)))"
  by (cases b0; cases b1; cases b2; cases b3; cases b4; cases b5; cases b6; cases b7;
      simp add: is_digit_def code_def)

lemma is_space_bits [code]:
  "is_space (Char b0 b1 b2 b3 b4 b5 b6 b7) =
     (\<not> b6 \<and>
       ((\<not> b7 \<and> \<not> b5 \<and> \<not> b4 \<and> b3 \<and> ((\<not> b2 \<and> (b1 \<or> b0)) \<or> (b2 \<and> \<not> b1))) \<or>
        (\<not> b7 \<and> \<not> b5 \<and> b4 \<and> b3 \<and> b2) \<or>
        (\<not> b7 \<and> b5 \<and> \<not> b4 \<and> \<not> b3 \<and> \<not> b2 \<and> \<not> b1 \<and> \<not> b0) \<or>
        (b7 \<and> \<not> b5 \<and> \<not> b4 \<and> \<not> b3 \<and> b2 \<and> \<not> b1 \<and> b0) \<or>
        (b7 \<and> b5 \<and> \<not> b4 \<and> \<not> b3 \<and> \<not> b2 \<and> \<not> b1 \<and> \<not> b0)))"
  by (cases b0; cases b1; cases b2; cases b3; cases b4; cases b5; cases b6; cases b7;
      simp add: is_space_def code_def)

lemma is_latin1_word_bits [code]:
  "is_latin1_word (Char b0 b1 b2 b3 b4 b5 b6 b7) =
     (b7 \<and>
       ((b6 \<and> \<not> (b4 \<and> \<not> b3 \<and> b2 \<and> b1 \<and> b0)) \<or>
        (\<not> b6 \<and> b5 \<and> \<not> b4 \<and> b3 \<and> \<not> b2 \<and> b1 \<and> \<not> b0) \<or>
        (\<not> b6 \<and> b5 \<and> b4 \<and>
          ((\<not> b3 \<and> \<not> b2 \<and> b1) \<or> (\<not> b3 \<and> b2 \<and> \<not> b1 \<and> b0) \<or>
           (b3 \<and> \<not> b2 \<and> (b1 \<noteq> b0)) \<or> (b3 \<and> b2 \<and> \<not> (b1 \<and> b0))))))"
  by (cases b0; cases b1; cases b2; cases b3; cases b4; cases b5; cases b6; cases b7;
      simp add: is_latin1_word_def code_def)

lemma is_latin1_upper_bits [code]:
  "is_latin1_upper (Char b0 b1 b2 b3 b4 b5 b6 b7) =
     (b7 \<and> b6 \<and> \<not> b5 \<and> \<not> (b4 \<and> b2 \<and> b1 \<and> b0))"
  by (cases b0; cases b1; cases b2; cases b3; cases b4; cases b5; cases b6; cases b7;
      simp add: is_latin1_upper_def code_def)

lemma is_latin1_lower_bits [code]:
  "is_latin1_lower (Char b0 b1 b2 b3 b4 b5 b6 b7) =
     (b7 \<and> b6 \<and> b5 \<and> \<not> (b4 \<and> b2 \<and> b1 \<and> b0))"
  by (cases b0; cases b1; cases b2; cases b3; cases b4; cases b5; cases b6; cases b7;
      simp add: is_latin1_lower_def code_def)

lemma lower_char_bits [code]:
  "lower_char (Char b0 b1 b2 b3 b4 b5 b6 b7) =
     (if is_upper (Char b0 b1 b2 b3 b4 b5 b6 b7) \<or> is_latin1_upper (Char b0 b1 b2 b3 b4 b5 b6 b7)
      then Char b0 b1 b2 b3 b4 True b6 b7
      else Char b0 b1 b2 b3 b4 b5 b6 b7)"
  by (cases b0; cases b1; cases b2; cases b3; cases b4; cases b5; cases b6; cases b7;
      simp add: lower_char_def is_upper_def is_latin1_upper_def code_def char_of_eq_iff)

lemma upper_char_bits [code]:
  "upper_char (Char b0 b1 b2 b3 b4 b5 b6 b7) =
     (if is_lower (Char b0 b1 b2 b3 b4 b5 b6 b7) \<or> is_latin1_lower (Char b0 b1 b2 b3 b4 b5 b6 b7)
      then Char b0 b1 b2 b3 b4 False b6 b7
      else Char b0 b1 b2 b3 b4 b5 b6 b7)"
  by (cases b0; cases b1; cases b2; cases b3; cases b4; cases b5; cases b6; cases b7;
      simp add: upper_char_def is_lower_def is_latin1_lower_def code_def char_of_eq_iff)

section \<open>What the passes leave alone\<close>

lemma fold_preserves:
  assumes "\<And>m s. f (step m s) = f s"
  shows "f (fold step ms s) = f s"
  using assms by (induction ms arbitrary: s) simp_all

lemma store_fields [simp]:
  "references (store k v s) = references s"
  "diagnostics (store k v s) = diagnostics s"
  "lines (store k v s) = lines s"
  "symbols (store k v s) = AList.update k v (symbols s)"
  by (simp_all add: store_def)

lemma declare_number_fields [simp]:
  "references (declare_number text ty doc start i s) = references s"
  "diagnostics (declare_number text ty doc start i s) = diagnostics s"
  "lines (declare_number text ty doc start i s) = lines s"
  by (simp_all add: declare_number_def split: prod.splits)

lemma number_step_fields [simp]:
  "references (number_step text m s) = references s"
  "diagnostics (number_step text m s) = diagnostics s"
  "lines (number_step text m s) = lines s"
  by (simp_all add: number_step_def Let_def fold_preserves)

lemma fixed_step_fields [simp]:
  "references (fixed_step text m s) = references s"
  "diagnostics (fixed_step text m s) = diagnostics s"
  "lines (fixed_step text m s) = lines s"
  by (simp_all add: fixed_step_def Let_def fold_preserves)

lemma parse_number_declarations_fields [simp]:
  "references (parse_number_declarations s text) = references s"
  "diagnostics (parse_number_declarations s text) = diagnostics s"
  "lines (parse_number_declarations s text) = lines s"
  by (simp_all add: parse_number_declarations_def fold_preserves)

lemma array_step_fields [simp]:
  "references (array_step text m s) = references s"
  "diagnostics (array_step text m s) = diagnostics s"
  "lines (array_step text m s) = lines s"
  "references (fixed_array_step text m s) = references s"
  "diagnostics (fixed_array_step text m s) = diagnostics s"
  "lines (fixed_array_step text m s) = lines s"
  by (simp_all add: array_step_def fixed_array_step_def Let_def split: prod.splits)

lemma parse_array_declarations_fields [simp]:
  "references (parse_array_declarations s text) = references s"
  "diagnostics (parse_array_declarations s text) = diagnostics s"
  "lines (parse_array_declarations s text) = lines s"
  by (simp_all add: parse_array_declarations_def fold_preserves)

lemma element_step_fields [simp]:
  "references (element_step text m tn et em s) = references s"
  "diagnostics (element_step text m tn et em s) = diagnostics s"
  "lines (element_step text m tn et em s) = lines s"
  by (simp_all add: element_step_def Let_def split: prod.splits)

lemma table_step_fields [simp]:
  "references (table_step text m s) = references s"
  "diagnostics (table_step text m s) = diagnostics s"
  "lines (table_step text m s) = lines s"
  by (simp_all add: table_step_def Let_def fold_preserves split: prod.splits)

lemma parse_table_declarations_fields [simp]:
  "references (parse_table_declarations s text) = references s"
  "diagnostics (parse_table_declarations s text) = diagnostics s"
  "lines (parse_table_declarations s text) = lines s"
  by (simp_all add: parse_table_declarations_def fold_preserves)

lemma declare_param_fields [simp]:
  "references (declare_param pn l c i s) = references s"
  "diagnostics (declare_param pn l c i s) = diagnostics s"
  "lines (declare_param pn l c i s) = lines s"
  by (simp_all add: declare_param_def)

lemma param_part_fields:
  "references (snd (param_part pn l c part acc)) = references (snd acc)"
  "diagnostics (snd (param_part pn l c part acc)) = diagnostics (snd acc)"
  "lines (snd (param_part pn l c part acc)) = lines (snd acc)"
  by (simp_all add: param_part_def Let_def fold_preserves split: prod.splits option.splits)

lemma fold_param_part_fields:
  "references (snd (fold (param_part pn l c) parts acc)) = references (snd acc)"
  "diagnostics (snd (fold (param_part pn l c) parts acc)) = diagnostics (snd acc)"
  "lines (snd (fold (param_part pn l c) parts acc)) = lines (snd acc)"
  by (induction parts arbitrary: acc) (simp_all add: param_part_fields)

lemma procedure_step_fields [simp]:
  "references (procedure_step text m s) = references s"
  "diagnostics (procedure_step text m s) = diagnostics s"
  "lines (procedure_step text m s) = lines s"
proof -
  obtain l c where pos: "find_position text (m_start m) = (l, c)"
    by (cases "find_position text (m_start m)")
  obtain ps s' where acc:
    "(if truthy (group m 4)
      then fold (param_part (group_str m 3) l c) (split CHR '';'' (group_str m 4)) ([], s)
      else ([], s)) = (ps, s')"
    by (cases "(if truthy (group m 4)
      then fold (param_part (group_str m 3) l c) (split CHR '';'' (group_str m 4)) ([], s)
      else ([], s))")
  have "references s' = references s \<and> diagnostics s' = diagnostics s \<and> lines s' = lines s"
    using acc fold_param_part_fields [of "group_str m 3" l c "split CHR '';'' (group_str m 4)" "([], s)"]
    by (auto split: if_splits)
  then show "references (procedure_step text m s) = references s"
    and "diagnostics (procedure_step text m s) = diagnostics s"
    and "lines (procedure_step text m s) = lines s"
    by (simp_all add: procedure_step_def Let_def pos acc)
qed

lemma parse_procedure_declarations_fields [simp]:
  "references (parse_procedure_declarations s text) = references s"
  "diagnostics (parse_procedure_declarations s text) = diagnostics s"
  "lines (parse_procedure_declarations s text) = lines s"
  by (simp_all add: parse_procedure_declarations_def fold_preserves)

lemma switch_step_fields [simp]:
  "references (switch_step text m s) = references s"
  "diagnostics (switch_step text m s) = diagnostics s"
  "lines (switch_step text m s) = lines s"
  by (simp_all add: switch_step_def Let_def split: prod.splits)

lemma parse_switch_declarations_fields [simp]:
  "references (parse_switch_declarations s text) = references s"
  "diagnostics (parse_switch_declarations s text) = diagnostics s"
  "lines (parse_switch_declarations s text) = lines s"
  by (simp_all add: parse_switch_declarations_def fold_preserves)

lemma overlay_step_fields [simp]:
  "references (overlay_step text m s) = references s"
  "diagnostics (overlay_step text m s) = diagnostics s"
  "lines (overlay_step text m s) = lines s"
  by (simp_all add: overlay_step_def Let_def split: prod.splits)

lemma parse_overlay_declarations_fields [simp]:
  "references (parse_overlay_declarations s text) = references s"
  "diagnostics (parse_overlay_declarations s text) = diagnostics s"
  "lines (parse_overlay_declarations s text) = lines s"
  by (simp_all add: parse_overlay_declarations_def fold_preserves)

lemma label_step_fields [simp]:
  "references (label_step text m s) = references s"
  "diagnostics (label_step text m s) = diagnostics s"
  "lines (label_step text m s) = lines s"
  by (simp_all add: label_step_def Let_def split: prod.splits)

lemma parse_labels_fields [simp]:
  "references (parse_labels s text) = references s"
  "diagnostics (parse_labels s text) = diagnostics s"
  "lines (parse_labels s text) = lines s"
  by (simp_all add: parse_labels_def fold_preserves)

lemma reference_step_fields [simp]:
  "diagnostics (reference_step text m s) = diagnostics s"
  "lines (reference_step text m s) = lines s"
  "symbols (reference_step text m s) = symbols s"
  by (simp_all add: reference_step_def Let_def split: prod.splits)

lemma parse_references_fields [simp]:
  "diagnostics (parse_references s text) = diagnostics s"
  "lines (parse_references s text) = lines s"
  "symbols (parse_references s text) = symbols s"
  by (simp_all add: parse_references_def fold_preserves)

lemma parse_diagnostics: "diagnostics (parse s text) = []"
  by (simp add: parse_def Let_def)

lemma parse_lines: "lines (parse s text) = split newline text"
  by (simp add: parse_def Let_def)

lemma reset_eq:
  "(s :: CORAL66Parser)\<lparr>symbols := a, references := b, diagnostics := c, lines := d,
      current_scope := e, scope_stack := f\<rparr> =
   \<lparr>symbols = a, references = b, diagnostics = c, lines = d, current_scope = e, scope_stack = f\<rparr>"
  by (cases s) simp

lemma parse_forgets: "parse s text = parse s' text"
  by (simp add: parse_def reset_eq)

lemma label_step_keeps:
  "map_of (symbols self) k = Some v \<Longrightarrow> map_of (symbols (label_step text m self)) k = Some v"
  by (auto simp add: label_step_def Let_def update_conv' split: prod.splits)

lemma fold_label_step_keeps:
  "map_of (symbols self) k = Some v \<Longrightarrow> map_of (symbols (fold (label_step text) ms self)) k = Some v"
  by (induction ms arbitrary: self) (simp_all add: label_step_keeps)

section \<open>Matches lie in the text, in order\<close>

text \<open>
  A run of the matcher ends at or after the offset where it started and inside the text.
  So the matches that \<open>finditer\<close> returns follow one another without overlap, and the
  text that \<open>remove_matches\<close> returns is made of the characters outside of them.
\<close>

lemma run_bounds:
  "run ic st p s n cs = Some (p', s', n', cs') \<Longrightarrow> n \<le> n' \<and> n' \<le> n + length s"
proof (induction ic st p s n cs arbitrary: p' s' n' cs' rule: run.induct)
  case (1 ic p s n cs)
  then show ?case by simp
next
  case (2 ic c st p n cs)
  then show ?case by simp
next
  case (3 ic c st p x xs n cs)
  show ?case
  proof (cases "lit_eq ic c x")
    case True
    with "3.prems" have "run ic st (Some x) xs (Suc n) cs = Some (p', s', n', cs')"
      by simp
    from "3.IH" [OF True this] show ?thesis
      by simp
  next
    case False
    with "3.prems" show ?thesis
      by simp
  qed
next
  case (4 ic items st p n cs)
  then show ?case by simp
next
  case (5 ic items st p x xs n cs)
  show ?case
  proof (cases "in_class ic items x")
    case True
    with "5.prems" have "run ic st (Some x) xs (Suc n) cs = Some (p', s', n', cs')"
      by simp
    from "5.IH" [OF True this] show ?thesis
      by simp
  next
    case False
    with "5.prems" show ?thesis
      by simp
  qed
next
  case (6 ic items st p n cs)
  then show ?case by simp
next
  case (7 ic items st p x xs n cs)
  show ?case
  proof (cases "in_class ic items x")
    case True
    with "7.prems" show ?thesis
      by simp
  next
    case False
    with "7.prems" have "run ic st (Some x) xs (Suc n) cs = Some (p', s', n', cs')"
      by simp
    from "7.IH" [OF False this] show ?thesis
      by simp
  qed
next
  case (8 ic st p s n cs)
  show ?case
  proof (cases "at_boundary p s")
    case True
    with "8.prems" have "run ic st p s n cs = Some (p', s', n', cs')"
      by simp
    from "8.IH" [OF True this] show ?thesis
      by simp
  next
    case False
    with "8.prems" show ?thesis
      by simp
  qed
next
  case (9 ic a b st p s n cs)
  from "9.prems" have "run ic (Re a # Re b # st) p s n cs = Some (p', s', n', cs')"
    by simp
  from "9.IH" [OF this] show ?case
    by simp
next
  case (10 ic a b st p s n cs)
  show ?case
  proof (cases "run ic (Re a # st) p s n cs")
    case None
    with "10.prems" have "run ic (Re b # st) p s n cs = Some (p', s', n', cs')"
      by simp
    from "10.IH" (2) [OF None this] show ?thesis
      by simp
  next
    case (Some r)
    with "10.prems" have "run ic (Re a # st) p s n cs = Some (p', s', n', cs')"
      by simp
    from "10.IH" (1) [OF this] show ?thesis
      by simp
  qed
next
  case (11 ic a st p s n cs)
  show ?case
  proof (cases "run ic (Re a # Loop a n # st) p s n cs")
    case None
    with "11.prems" have "run ic st p s n cs = Some (p', s', n', cs')"
      by simp
    from "11.IH" (2) [OF None this] show ?thesis
      by simp
  next
    case (Some r)
    with "11.prems" have "run ic (Re a # Loop a n # st) p s n cs = Some (p', s', n', cs')"
      by simp
    from "11.IH" (1) [OF this] show ?thesis
      by simp
  qed
next
  case (12 ic a st p s n cs)
  from "12.prems" have "run ic (Re a # Re (Star a) # st) p s n cs = Some (p', s', n', cs')"
    by simp
  from "12.IH" [OF this] show ?case
    by simp
next
  case (13 ic a st p s n cs)
  show ?case
  proof (cases "run ic (Re a # st) p s n cs")
    case None
    with "13.prems" have "run ic st p s n cs = Some (p', s', n', cs')"
      by simp
    from "13.IH" (2) [OF None this] show ?thesis
      by simp
  next
    case (Some r)
    with "13.prems" have "run ic (Re a # st) p s n cs = Some (p', s', n', cs')"
      by simp
    from "13.IH" (1) [OF this] show ?thesis
      by simp
  qed
next
  case (14 ic g a st p s n cs)
  from "14.prems" have "run ic (Re a # Close g s n # st) p s n cs = Some (p', s', n', cs')"
    by simp
  from "14.IH" [OF this] show ?case
    by simp
next
  case (15 ic a st p s n cs)
  show ?case
  proof (cases "run ic [Re a] p s n cs")
    case None
    with "15.prems" have "run ic st p s n cs = Some (p', s', n', cs')"
      by simp
    from "15.IH" (2) [OF None this] show ?thesis
      by simp
  next
    case (Some r)
    with "15.prems" show ?thesis
      by simp
  qed
next
  case (16 ic g s0 n0 st p s n cs)
  from "16.prems" have "run ic st p s n ((g, take (n - n0) s0) # cs) = Some (p', s', n', cs')"
    by simp
  from "16.IH" [OF this] show ?case
    by simp
next
  case (17 ic a n0 st p s n cs)
  show ?case
  proof (cases "n0 < n")
    case True
    with "17.prems" have "run ic (Re (Star a) # st) p s n cs = Some (p', s', n', cs')"
      by simp
    from "17.IH" [OF True this] show ?thesis
      by simp
  next
    case False
    with "17.prems" show ?thesis
      by simp
  qed
qed

lemma try_at_bounds:
  assumes "try_at ic r p s n = Some m"
  shows "m_start m = n \<and> n \<le> m_end m \<and> m_end m \<le> n + length s"
proof (cases "run ic [Re r] p s n []")
  case None
  with assms show ?thesis
    by (simp add: try_at_def)
next
  case (Some res)
  obtain p' s' n' cs' where res: "res = (p', s', n', cs')"
    by (cases res)
  from Some res have "n \<le> n' \<and> n' \<le> n + length s"
    by (simp add: run_bounds)
  with assms Some res show ?thesis
    by (auto simp add: try_at_def)
qed

lemma ordered_weaken: "ordered k l ms \<Longrightarrow> j \<le> k \<Longrightarrow> ordered j l ms"
  by (cases ms) auto

lemma scan_ordered:
  "skip \<le> length s \<Longrightarrow> ordered (n + skip) (n + length s) (scan ic r skip p s n)"
proof (induction s arbitrary: skip p n)
  case Nil
  then have skip: "skip = 0" by simp
  show ?case
  proof (cases "try_at ic r p [] n")
    case None
    with skip show ?thesis by simp
  next
    case (Some m)
    from try_at_bounds [OF Some] show ?thesis
      using Some skip by simp
  qed
next
  case (Cons x xs)
  show ?case
  proof (cases "0 < skip")
    case True
    with Cons.prems have "skip - 1 \<le> length xs" by simp
    from Cons.IH [OF this, of "Suc n" "Some x"] True show ?thesis
      by simp
  next
    case False
    then have skip: "skip = 0" by simp
    show ?thesis
    proof (cases "try_at ic r p (x # xs) n")
      case None
      have "ordered (Suc n + 0) (Suc n + length xs) (scan ic r 0 (Some x) xs (Suc n))"
        by (rule Cons.IH) simp
      then have "ordered n (Suc n + length xs) (scan ic r 0 (Some x) xs (Suc n))"
        by (rule ordered_weaken) simp
      with None skip show ?thesis by simp
    next
      case (Some m)
      from try_at_bounds [OF Some]
      have b: "m_start m = n" "n \<le> m_end m" "m_end m \<le> n + length (x # xs)"
        by simp_all
      from b have "m_end m - Suc n \<le> length xs" by simp
      from Cons.IH [OF this, of "Suc n" "Some x"]
      have "ordered (m_end m) (Suc n + length xs) (scan ic r (m_end m - Suc n) (Some x) xs (Suc n))"
        by (rule ordered_weaken) simp
      with Some skip b show ?thesis by simp
    qed
  qed
qed

lemma finditer_ordered: "ordered 0 (length s) (finditer ic r s)"
  using scan_ordered [of 0 s 0 ic r None] by (simp add: finditer_def)

lemma remove_matches_splice_aux:
  "(case foldl (\<lambda>(out, pos) m. (out @ take (m_start m - pos) (drop pos text), m_end m)) (out, pos) ms of
      (out', pos') \<Rightarrow> out' @ drop pos' text) = out @ splice pos ms text"
  by (induction ms arbitrary: out pos) simp_all

lemma remove_matches_splice: "remove_matches ms text = splice 0 ms text"
  using remove_matches_splice_aux [of _ "[]" 0 ms] by (simp add: remove_matches_def)

lemma ordered_bounds: "ordered k l ms \<Longrightarrow> k \<le> l"
proof (induction ms arbitrary: k)
  case Nil
  then show ?case by simp
next
  case (Cons m ms)
  then have "m_end m \<le> l" by simp
  with Cons.prems show ?case by simp
qed

lemma ordered_not_covered: "ordered k l ms \<Longrightarrow> i < k \<Longrightarrow> \<not> covered ms i"
proof (induction ms arbitrary: k)
  case Nil
  then show ?case by (simp add: covered_def)
next
  case (Cons m ms)
  then have "i < m_end m" and "ordered (m_end m) l ms" by simp_all
  with Cons.IH have "\<not> covered ms i" by blast
  with Cons.prems show ?case by (simp add: covered_def)
qed

lemma upt_split: "a \<le> b \<Longrightarrow> b \<le> c \<Longrightarrow> [a..<c] = [a..<b] @ [b..<c]"
  by (metis le_Suc_ex upt_add_eq_append)

lemma drop_as_map: "drop k xs = map ((!) xs) [k..<length xs]"
  by (simp add: list_eq_iff_nth_eq)

lemma take_drop_as_map: "j \<le> length xs \<Longrightarrow> take (j - k) (drop k xs) = map ((!) xs) [k..<j]"
  by (simp add: list_eq_iff_nth_eq)

lemma splice_kept:
  "ordered pos (length text) ms \<Longrightarrow>
   splice pos ms text = map ((!) text) (filter (\<lambda>i. \<not> covered ms i) [pos..<length text])"
proof (induction ms arbitrary: pos)
  case Nil
  then show ?case by (simp add: covered_def drop_as_map)
next
  case (Cons m ms)
  then have o: "pos \<le> m_start m" "m_start m \<le> m_end m" "ordered (m_end m) (length text) ms"
    by simp_all
  from o(3) have e: "m_end m \<le> length text" by (rule ordered_bounds)
  have split: "[pos..<length text] = [pos..<m_start m] @ [m_start m..<m_end m] @ [m_end m..<length text]"
    using o e upt_split [of pos "m_start m" "length text"] upt_split [of "m_start m" "m_end m" "length text"]
    by simp
  have before: "filter (\<lambda>i. \<not> covered (m # ms) i) [pos..<m_start m] = [pos..<m_start m]"
  proof -
    have "\<not> covered (m # ms) i" if "i < m_start m" for i
      using ordered_not_covered [of "m_start m" "length text" "m # ms" i] o that by simp
    then show ?thesis by (simp add: filter_id_conv)
  qed
  have inside: "filter (\<lambda>i. \<not> covered (m # ms) i) [m_start m..<m_end m] = []"
    by (simp add: filter_empty_conv covered_def)
  have after: "filter (\<lambda>i. \<not> covered (m # ms) i) [m_end m..<length text]
             = filter (\<lambda>i. \<not> covered ms i) [m_end m..<length text]"
    by (rule filter_cong) (auto simp add: covered_def)
  have "splice pos (m # ms) text
        = take (m_start m - pos) (drop pos text) @ splice (m_end m) ms text"
    by simp
  also have "\<dots> = map ((!) text) [pos..<m_start m]
                 @ map ((!) text) (filter (\<lambda>i. \<not> covered ms i) [m_end m..<length text])"
    using o e Cons.IH [OF o(3)] by (simp add: take_drop_as_map)
  also have "\<dots> = map ((!) text) (filter (\<lambda>i. \<not> covered (m # ms) i) [pos..<length text])"
    by (simp only: split filter_append before inside after map_append append_Nil)
  finally show ?case .
qed

section \<open>Entries written by the number pass\<close>

lemma declare_number_entry:
  "map_of (symbols (declare_number text ty doc start i s)) k =
     (if i \<noteq> [] \<and> \<not> is_keyword (upper i) \<and> lower i = k
      then Some ((mk_symbol k VARIABLE ty (fst (find_position text start)) (snd (find_position text start)))
                   \<lparr>sym_documentation := doc\<rparr>)
      else map_of (symbols s) k)"
  by (simp add: declare_number_def update_conv' split: prod.splits)

lemma fold_declare_number_entry:
  "map_of (symbols (fold (declare_number text ty doc start) ids s)) k =
     (if k \<in> set (map lower (filter (\<lambda>i. i \<noteq> [] \<and> \<not> is_keyword (upper i)) ids))
      then Some ((mk_symbol k VARIABLE ty (fst (find_position text start)) (snd (find_position text start)))
                   \<lparr>sym_documentation := doc\<rparr>)
      else map_of (symbols s) k)"
proof (induction ids arbitrary: s)
  case Nil
  then show ?case by simp
next
  case (Cons i ids)
  show ?case
    by (simp add: Cons.IH declare_number_entry)
qed

lemma number_step_entry:
  "map_of (symbols (number_step text m s)) k =
     (if k \<in> set (declared_ids m) then Some (number_symbol text m k) else map_of (symbols s) k)"
  by (simp add: number_step_def Let_def fold_declare_number_entry declared_ids_def number_symbol_def)

section \<open>The table after the passes\<close>

text \<open>
  Every step of a declaration loop writes entries that do not depend on the table it
  finds: the table after the step is the table before it overwritten by what the step
  writes on a fresh parser. So the table after a loop, and after the whole parse, is the
  tables of the matches laid over one another in the order of processing. The label pass
  goes the other way round: it fills in only the names that have no entry yet.
\<close>

lemma table_of_init [simp]: "table_of init = Map.empty"
  by (simp add: table_of_def init_def)

lemma table_of_store: "table_of (store k v s) = table_of s ++ [k \<mapsto> v]"
  by (simp add: table_of_def update_conv')

lemma fold_overlay:
  assumes "\<And>x s. table_of (step x s) = table_of s ++ table_of (step x init)"
  shows "table_of (fold step xs s) = table_of s ++ table_of (fold step xs init)"
proof (induction xs arbitrary: s)
  case Nil
  show ?case by simp
next
  case (Cons x xs)
  have "table_of (fold step (x # xs) s) = table_of (step x s) ++ table_of (fold step xs init)"
    using Cons [of "step x s"] by simp
  also have "\<dots> = table_of s ++ (table_of (step x init) ++ table_of (fold step xs init))"
    using assms [of x s] by simp
  also have "\<dots> = table_of s ++ table_of (fold step (x # xs) init)"
    using Cons [of "step x init"] by simp
  finally show ?case .
qed

lemma fold_overlay_append:
  assumes "\<And>x s. table_of (step x s) = table_of s ++ table_of (step x init)"
  shows "table_of (fold step (xs @ ys) s) = table_of (fold step xs s) ++ table_of (fold step ys init)"
  using fold_overlay [of step ys "fold step xs s", OF assms] by simp

lemma declare_number_overlay:
  "table_of (declare_number text ty doc start i s) =
     table_of s ++ table_of (declare_number text ty doc start i init)"
  by (simp add: declare_number_def table_of_store split: prod.splits)

lemma number_step_overlay:
  "table_of (number_step text m s) = table_of s ++ table_of (number_step text m init)"
  unfolding number_step_def Let_def by (rule fold_overlay) (rule declare_number_overlay)

lemma fixed_step_overlay:
  "table_of (fixed_step text m s) = table_of s ++ table_of (fixed_step text m init)"
  unfolding fixed_step_def Let_def by (rule fold_overlay) (rule declare_number_overlay)

lemma array_step_overlay:
  "table_of (array_step text m s) = table_of s ++ table_of (array_step text m init)"
  by (simp add: array_step_def Let_def table_of_store split: prod.splits)

lemma fixed_array_step_overlay:
  "table_of (fixed_array_step text m s) = table_of s ++ table_of (fixed_array_step text m init)"
  by (simp add: fixed_array_step_def Let_def table_of_store split: prod.splits)

lemma element_step_overlay:
  "table_of (element_step text m tn et em s) = table_of s ++ table_of (element_step text m tn et em init)"
  by (simp add: element_step_def Let_def table_of_store split: prod.splits)

lemma table_step_overlay:
  "table_of (table_step text m s) = table_of s ++ table_of (table_step text m init)"
  using fold_overlay [of "element_step text m (group_str m 1) (group_str m 4)"
          "finditer True element_pattern (group_str m 4)" s, OF element_step_overlay]
  by (simp add: table_step_def Let_def table_of_store split: prod.splits)

lemma switch_step_overlay:
  "table_of (switch_step text m s) = table_of s ++ table_of (switch_step text m init)"
  by (simp add: switch_step_def Let_def table_of_store split: prod.splits)

lemma overlay_step_overlay:
  "table_of (overlay_step text m s) = table_of s ++ table_of (overlay_step text m init)"
  by (simp add: overlay_step_def Let_def table_of_store split: prod.splits)

lemma declare_param_overlay:
  "table_of (declare_param pn l c i s) = table_of s ++ table_of (declare_param pn l c i init)"
  by (simp add: declare_param_def table_of_store)

lemma param_part_fst:
  "fst (param_part pn l c part (ps, s)) = fst (param_part pn l c part (ps, s'))"
  by (simp add: param_part_def Let_def split: option.splits)

lemma param_part_snd:
  "table_of (snd (param_part pn l c part (ps, s))) =
     table_of s ++ table_of (snd (param_part pn l c part (ps', init)))"
  using fold_overlay [of "declare_param pn l c" _ s, OF declare_param_overlay]
  by (simp add: param_part_def Let_def split: option.splits)

lemma fold_param_part_fst:
  "fst (fold (param_part pn l c) parts (ps, s)) = fst (fold (param_part pn l c) parts (ps, s'))"
proof (induction parts arbitrary: ps s s')
  case Nil
  show ?case by simp
next
  case (Cons part parts)
  obtain qs t where a: "param_part pn l c part (ps, s) = (qs, t)"
    by (cases "param_part pn l c part (ps, s)")
  obtain qs' t' where b: "param_part pn l c part (ps, s') = (qs', t')"
    by (cases "param_part pn l c part (ps, s')")
  from a b param_part_fst [of pn l c part ps s s'] have "qs = qs'" by simp
  with a b Cons [of qs t t'] show ?case by simp
qed

lemma fold_param_part_snd:
  "table_of (snd (fold (param_part pn l c) parts (ps, s))) =
     table_of s ++ table_of (snd (fold (param_part pn l c) parts (ps', init)))"
proof (induction parts arbitrary: ps ps' s)
  case Nil
  show ?case by simp
next
  case (Cons part parts)
  obtain qs t where a: "param_part pn l c part (ps, s) = (qs, t)"
    by (cases "param_part pn l c part (ps, s)")
  obtain qs' t' where b: "param_part pn l c part (ps', init) = (qs', t')"
    by (cases "param_part pn l c part (ps', init)")
  have t: "table_of t = table_of s ++ table_of t'"
    using a b param_part_snd [of pn l c part ps s ps'] by simp
  have "table_of (snd (fold (param_part pn l c) (part # parts) (ps, s)))
          = table_of t ++ table_of (snd (fold (param_part pn l c) parts (qs', init)))"
    using a Cons [of qs t qs'] by simp
  also have "\<dots> = table_of s ++ (table_of t' ++ table_of (snd (fold (param_part pn l c) parts (qs', init))))"
    using t by simp
  also have "\<dots> = table_of s ++ table_of (snd (fold (param_part pn l c) (part # parts) (ps', init)))"
    using b Cons [of qs' t' qs'] by simp
  finally show ?case .
qed

lemma procedure_step_overlay:
  "table_of (procedure_step text m s) = table_of s ++ table_of (procedure_step text m init)"
proof -
  obtain l c where pos: "find_position text (m_start m) = (l, c)"
    by (cases "find_position text (m_start m)")
  let ?parts = "split CHR '';'' (group_str m 4)"
  let ?P = "param_part (group_str m 3) l c"
  obtain ps s' where acc: "fold ?P ?parts ([], s) = (ps, s')"
    by (cases "fold ?P ?parts ([], s)")
  obtain ps0 s0 where acc0: "fold ?P ?parts ([], init) = (ps0, s0)"
    by (cases "fold ?P ?parts ([], init)")
  have ps: "ps = ps0"
    using acc acc0 fold_param_part_fst [of "group_str m 3" l c ?parts "[]" s init] by simp
  have s': "table_of s' = table_of s ++ table_of s0"
    using acc acc0 fold_param_part_snd [of "group_str m 3" l c ?parts "[]" s "[]"] by simp
  show ?thesis
    by (simp add: procedure_step_def Let_def pos acc acc0 ps s' table_of_store)
qed

lemma pass_overlay:
  "table_of (parse_number_declarations s text) = table_of s ++ table_of (parse_number_declarations init text)"
  "table_of (parse_array_declarations s text) = table_of s ++ table_of (parse_array_declarations init text)"
  "table_of (parse_table_declarations s text) = table_of s ++ table_of (parse_table_declarations init text)"
  "table_of (parse_procedure_declarations s text) = table_of s ++ table_of (parse_procedure_declarations init text)"
  "table_of (parse_switch_declarations s text) = table_of s ++ table_of (parse_switch_declarations init text)"
  "table_of (parse_overlay_declarations s text) = table_of s ++ table_of (parse_overlay_declarations init text)"
proof -
  note ov = fold_overlay [OF number_step_overlay] fold_overlay [OF fixed_step_overlay]
    fold_overlay [OF array_step_overlay] fold_overlay [OF fixed_array_step_overlay]
  show "table_of (parse_number_declarations s text) = table_of s ++ table_of (parse_number_declarations init text)"
    unfolding parse_number_declarations_def
    by (subst ov(2), subst ov(1), subst ov(1), subst (2) ov(2), subst (2) ov(1)) simp
  show "table_of (parse_array_declarations s text) = table_of s ++ table_of (parse_array_declarations init text)"
    unfolding parse_array_declarations_def
    by (subst ov(4), subst ov(3), subst (2) ov(4)) simp
  show "table_of (parse_table_declarations s text) = table_of s ++ table_of (parse_table_declarations init text)"
    unfolding parse_table_declarations_def by (rule fold_overlay) (rule table_step_overlay)
  show "table_of (parse_procedure_declarations s text) = table_of s ++ table_of (parse_procedure_declarations init text)"
    unfolding parse_procedure_declarations_def by (rule fold_overlay) (rule procedure_step_overlay)
  show "table_of (parse_switch_declarations s text) = table_of s ++ table_of (parse_switch_declarations init text)"
    unfolding parse_switch_declarations_def by (rule fold_overlay) (rule switch_step_overlay)
  show "table_of (parse_overlay_declarations s text) = table_of s ++ table_of (parse_overlay_declarations init text)"
    unfolding parse_overlay_declarations_def by (rule fold_overlay) (rule overlay_step_overlay)
qed

lemma number_pass_loops:
  "table_of (parse_number_declarations init text) =
     loop (number_step text) (finditer True (number_pattern ''INTEGER'') text)
     ++ loop (number_step text) (finditer True (number_pattern ''FLOATING'') text)
     ++ loop (fixed_step text) (finditer True fixed_pattern text)"
  unfolding parse_number_declarations_def loop_def
  by (subst fold_overlay [OF fixed_step_overlay], subst fold_overlay [OF number_step_overlay]) simp

lemma array_pass_loops:
  "table_of (parse_array_declarations init text) =
     loop (array_step text) (finditer True array_pattern text)
     ++ loop (fixed_array_step text) (finditer True fixed_array_pattern text)"
  unfolding parse_array_declarations_def loop_def
  by (subst fold_overlay [OF fixed_array_step_overlay]) simp

lemma label_step_fill:
  "table_of (label_step text m s) = table_of (label_step text m init) ++ table_of s"
  by (auto simp add: label_step_def Let_def table_of_def update_conv' init_def map_add_def
           split: prod.splits option.splits intro!: ext)

lemma fold_label_step_fill:
  "table_of (fold (label_step text) ms s) = table_of (fold (label_step text) ms init) ++ table_of s"
proof (induction ms arbitrary: s)
  case Nil
  show ?case by simp
next
  case (Cons m ms)
  have "table_of (fold (label_step text) (m # ms) s)
          = table_of (fold (label_step text) ms init) ++ (table_of (label_step text m init) ++ table_of s)"
    using Cons [of "label_step text m s"] label_step_fill [of _ m s] by simp
  also have "\<dots> = table_of (fold (label_step text) (m # ms) init) ++ table_of s"
    using Cons [of "label_step text m init"] by simp
  finally show ?case .
qed

lemma parse_labels_fill:
  "table_of (parse_labels s text) = table_of (parse_labels init text) ++ table_of s"
  unfolding parse_labels_def by (rule fold_label_step_fill)

lemma table_of_parse_references [simp]: "table_of (parse_references s text) = table_of s"
  by (simp add: table_of_def)

lemma table_of_reset [simp]:
  "table_of (s\<lparr>symbols := [], references := a, diagnostics := b, lines := c, current_scope := d, scope_stack := e\<rparr>)
     = Map.empty"
  by (simp add: table_of_def)

lemma parse_table:
  "table_of (parse s text) =
     table_of (parse_labels init (remove_comments text)) ++
       (table_of (parse_number_declarations init (remove_comments text)) ++
        table_of (parse_array_declarations init (remove_comments text)) ++
        table_of (parse_table_declarations init (remove_comments text)) ++
        table_of (parse_procedure_declarations init (remove_comments text)) ++
        table_of (parse_switch_declarations init (remove_comments text)) ++
        table_of (parse_overlay_declarations init (remove_comments text)))"
  unfolding parse_def Let_def table_of_parse_references
  by (subst parse_labels_fill, subst pass_overlay(6), subst pass_overlay(5), subst pass_overlay(4),
      subst pass_overlay(3), subst pass_overlay(2), subst pass_overlay(1)) simp

lemma fixed_step_entry:
  "map_of (symbols (fixed_step text m s)) k =
     (if k \<in> set (fixed_declared_ids m) then Some (fixed_symbol text m k) else map_of (symbols s) k)"
  by (simp add: fixed_step_def Let_def fold_declare_number_entry fixed_declared_ids_def fixed_symbol_def)

lemma loop_number_step_one:
  "loop (number_step text) [m] k =
     (if k \<in> set (declared_ids m) then Some (number_symbol text m k) else None)"
  by (simp add: loop_def table_of_def number_step_entry init_def)

lemma loop_fixed_step_one:
  "loop (fixed_step text) [m] k =
     (if k \<in> set (fixed_declared_ids m) then Some (fixed_symbol text m k) else None)"
  by (simp add: loop_def table_of_def fixed_step_entry init_def)

lemma loop_append:
  assumes "\<And>x s. table_of (step x s) = table_of s ++ table_of (step x init)"
  shows "loop step (earlier @ later) = loop step earlier ++ loop step later"
  unfolding loop_def by (rule fold_overlay_append) (rule assms)

lemma parse_table_loops:
  "table_of (parse s text) =
     loop (label_step (remove_comments text)) (finditer False label_pattern (remove_comments text)) ++
       (loop (number_step (remove_comments text))
          (finditer True (number_pattern ''INTEGER'') (remove_comments text)) ++
        loop (number_step (remove_comments text))
          (finditer True (number_pattern ''FLOATING'') (remove_comments text)) ++
        loop (fixed_step (remove_comments text)) (finditer True fixed_pattern (remove_comments text)) ++
        loop (array_step (remove_comments text)) (finditer True array_pattern (remove_comments text)) ++
        loop (fixed_array_step (remove_comments text))
          (finditer True fixed_array_pattern (remove_comments text)) ++
        loop (table_step (remove_comments text)) (finditer True table_pattern (remove_comments text)) ++
        loop (procedure_step (remove_comments text))
          (finditer True procedure_pattern (remove_comments text)) ++
        loop (switch_step (remove_comments text)) (finditer True switch_pattern (remove_comments text)) ++
        loop (overlay_step (remove_comments text)) (finditer True overlay_pattern (remove_comments text)))"
  unfolding parse_table number_pass_loops array_pass_loops
  by (simp add: loop_def parse_labels_def parse_table_declarations_def
        parse_procedure_declarations_def parse_switch_declarations_def parse_overlay_declarations_def)

lemma loops_append:
  "list_all (\<lambda>(step, ms). \<forall>earlier later. loop step (earlier @ later) = loop step earlier ++ loop step later)
     (declaration_loops c)"
  by (simp add: declaration_loops_def
        loop_append [OF number_step_overlay] loop_append [OF fixed_step_overlay]
        loop_append [OF array_step_overlay] loop_append [OF fixed_array_step_overlay]
        loop_append [OF table_step_overlay] loop_append [OF procedure_step_overlay]
        loop_append [OF switch_step_overlay] loop_append [OF overlay_step_overlay])




section \<open>One entry for each key\<close>


















section \<open>What the reference pass records\<close>



section \<open>Queries beyond the last line\<close>

text \<open>
  Claim C9. For every parser state and every query position whose line number is at least
  the number of lines of the document, \<open>get_hover\<close> and \<open>get_definition\<close> return None and
  \<open>get_references_at\<close> returns the empty list; none of the three raises.
\<close>

theorem queries_past_last_line:
  assumes "int (length (lines self)) \<le> line"
  shows "get_hover self line column = Inr None \<and>
         get_definition self line column = Inr None \<and>
         get_references_at self line column = Inr []"
  using assms by (simp add: get_hover_def get_definition_def get_references_at_def)

theorem queries_past_last_line_witness:
  "int (length (lines (parse init ''x;''))) \<le> 1 \<and>
   get_hover (parse init ''x;'') 1 0 = Inr None \<and>
   get_definition (parse init ''x;'') 1 0 = Inr None \<and>
   get_references_at (parse init ''x;'') 1 0 = Inr []"
proof -
  have h: "int (length (lines (parse init ''x;''))) \<le> 1"
    unfolding parse_lines by code_simp
  show ?thesis
    using h queries_past_last_line [OF h, of 0] by simp
qed

section \<open>Determinism and reparsing\<close>

text \<open>
  Claim C6. For every input text, two independent analyses of the same string produce
  structurally identical snapshots: equal symbol tables, equal reference lists and equal
  diagnostic lists. The two analyses may start from any two parser instances.
\<close>

theorem parse_deterministic:
  "get_symbols (parse s1 text) = get_symbols (parse s2 text) \<and>
   get_references (parse s1 text) = get_references (parse s2 text) \<and>
   get_diagnostics (parse s1 text) = get_diagnostics (parse s2 text)"
  using parse_forgets [of s1 _ s2]
  by (simp add: get_symbols_def get_references_def get_diagnostics_def)

text \<open>
  Claim C10. For every parser instance and every pair of texts \<open>t1\<close> and \<open>t2\<close>, calling
  \<open>parse t1\<close> and then \<open>parse t2\<close> on the same instance leaves it in exactly the state of a
  freshly constructed parser after \<open>parse t2\<close> alone: symbols, references, diagnostics and
  lines (and the two scope fields) carry nothing over from the earlier parse.
\<close>

theorem reparse_keeps_nothing:
  "parse (parse self t1) t2 = parse init t2"
  by (rule parse_forgets)

section \<open>Labels\<close>

text \<open>
  Claim C8. For every input text, a label occurrence whose lower-case name already has an
  entry in the symbol table leaves that entry unchanged: whatever the label pass meets, an
  entry that was in the table before the pass is still there, with the same Symbol, after it.
\<close>

theorem labels_never_replace:
  assumes "map_of (symbols self) k = Some v"
  shows "map_of (symbols (parse_labels self text)) k = Some v"
  using assms by (simp add: parse_labels_def fold_label_step_keeps)

theorem labels_never_replace_witness:
  "map (\<lambda>m. group_str m 1) (finditer False label_pattern label_doc) = [''x''] \<and>
   map_of (symbols (parse_number_declarations init label_doc)) ''x''
     = Some ((mk_symbol ''x'' VARIABLE ''INTEGER'' 0 0)\<lparr>sym_documentation := ''INTEGER variable''\<rparr>) \<and>
   map_of (symbols (parse_labels (parse_number_declarations init label_doc) label_doc)) ''x''
     = Some ((mk_symbol ''x'' VARIABLE ''INTEGER'' 0 0)\<lparr>sym_documentation := ''INTEGER variable''\<rparr>)"
proof -
  have occ: "map (\<lambda>m. group_str m 1) (finditer False label_pattern label_doc) = [''x'']"
    by code_simp
  have h: "map_of (symbols (parse_number_declarations init label_doc)) ''x''
     = Some ((mk_symbol ''x'' VARIABLE ''INTEGER'' 0 0)\<lparr>sym_documentation := ''INTEGER variable''\<rparr>)"
    by code_simp
  show ?thesis
    using occ h labels_never_replace [OF h, of label_doc] by simp
qed

section \<open>A number declaration\<close>

text \<open>
  Claim C7. Parsing \<^verbatim>\<open>INTEGER count, total := 0;\<close> yields a Symbol named \<open>count\<close> of
  kind VARIABLE and type INTEGER and a Symbol named \<open>total\<close> of kind VARIABLE and type
  INTEGER; these two are the whole symbol table.
\<close>

theorem integer_count_total:
  "map (\<lambda>(k, s). (k, sym_name s, sym_kind s, sym_data_type s))
     (get_symbols (parse init ''INTEGER count, total := 0;'')) =
   [(''count'', ''count'', VARIABLE, ''INTEGER''), (''total'', ''total'', VARIABLE, ''INTEGER'')]"
  by code_simp

section \<open>Resolution of a name\<close>





section \<open>Comments\<close>

text \<open>
  Claim C2: each \<^verbatim>\<open>COMMENT ... ;\<close> region is replaced with blank content of equal
  length, so that the position recorded for every symbol and reference after a comment is
  the token's position in the raw text. The code fails it on \<open>comment_doc\<close>, where a
  declaration follows a comment on the same line. The stripped text is ten characters
  shorter than the raw one; the Symbol \<open>x\<close> is recorded at column 1 and the reference to
  \<open>x\<close> at column 9, while the raw line has the declaration at column 11 and \<open>x\<close> at
  column 19. The queries read the raw lines: asked for the definition of the \<open>x\<close> at
  column 19, the parser answers line 0, column 1, a place inside the comment.
\<close>

theorem comment_positions_drift:
  "remove_comments comment_doc = '' INTEGER x;'' \<and>
   map (\<lambda>(k, v). (k, sym_line v, sym_column v)) (get_symbols (parse init comment_doc)) = [(''x'', 0, 1)] \<and>
   map (\<lambda>r. (ref_name r, ref_line r, ref_column r, ref_end_column r))
     (get_references (parse init comment_doc)) = [(''x'', 0, 9, 10)] \<and>
   get_definition (parse init comment_doc) 0 19 = Inr (Some (0, 1, ''x'')) \<and>
   take 10 comment_doc = ''COMMENT a;'' \<and>
   drop 11 comment_doc = ''INTEGER x;'' \<and>
   drop 19 comment_doc = ''x;''"
  by code_simp

text \<open>
  What the stripping does, for every text: the stripped text consists of exactly the
  characters of the raw text that lie outside every match of the comment pattern, in
  their order; nothing stands in the place of a comment.
\<close>

lemma comments_are_deleted:
  "remove_comments text =
     map ((!) text) (filter (\<lambda>i. \<not> covered (finditer True comment_pattern text) i) [0..<length text])"
  by (simp add: remove_comments_def remove_matches_splice splice_kept finditer_ordered)

section \<open>References\<close>




section \<open>Redeclarations and diagnostics\<close>

text \<open>
  Claim C4, as stated: when a name is declared twice directly in one scope, a
  DuplicateSymbol diagnostic is recorded and the Symbol stored is the one of the earlier
  declaration. In \<open>duplicate_doc\<close> no diagnostic is recorded and the Symbol stored for
  \<open>x\<close> is the one of line 1, the later declaration.
\<close>

theorem duplicate_counterexample:
  "get_diagnostics (parse init duplicate_doc) = [] \<and>
   map (\<lambda>(k, s). (k, sym_line s, sym_column s)) (get_symbols (parse init duplicate_doc)) = [(''x'', 1, 0)]"
  by code_simp

text \<open>
  Claim C4, amended: for every document no diagnostic is recorded, and a declaration
  overwrites the entry an earlier processed declaration stored under the same name. After
  analysis the symbol table is the tables of the loops laid over one another in the order
  of processing (INTEGER, FLOATING, FIXED, arrays, FIXED arrays, tables, procedures,
  switches, overlays), each overwriting the entries of those before it; within a loop each
  match of the pattern overwrites the entries of the matches before it; a match of a
  number pattern enters, under each name it declares, the Symbol of its own type and
  position. Labels alone never overwrite: they hold only the names no declaration entered.
\<close>

theorem later_declaration_overwrites:
  "(let c = remove_comments text in
     get_diagnostics (parse s text) = [] \<and>
     table_of (parse s text) =
       loop (label_step c) (finditer False label_pattern c) ++
         (loop (number_step c) (finditer True (number_pattern ''INTEGER'') c) ++
          loop (number_step c) (finditer True (number_pattern ''FLOATING'') c) ++
          loop (fixed_step c) (finditer True fixed_pattern c) ++
          loop (array_step c) (finditer True array_pattern c) ++
          loop (fixed_array_step c) (finditer True fixed_array_pattern c) ++
          loop (table_step c) (finditer True table_pattern c) ++
          loop (procedure_step c) (finditer True procedure_pattern c) ++
          loop (switch_step c) (finditer True switch_pattern c) ++
          loop (overlay_step c) (finditer True overlay_pattern c)) \<and>
     list_all (\<lambda>(step, ms). \<forall>earlier later. loop step (earlier @ later) = loop step earlier ++ loop step later)
       (declaration_loops c) \<and>
     (\<forall>m k. loop (number_step c) [m] k =
              (if k \<in> set (declared_ids m) then Some (number_symbol c m k) else None)) \<and>
     (\<forall>m k. loop (fixed_step c) [m] k =
              (if k \<in> set (fixed_declared_ids m) then Some (fixed_symbol c m k) else None)))"
  unfolding Let_def
  by (intro conjI allI)
     (simp add: get_diagnostics_def parse_diagnostics, rule parse_table_loops, rule loops_append,
      rule loop_number_step_one, rule loop_fixed_step_one)



end
